theory Spec2Isabelle
  imports Complex_Main
begin

section \<open>JavaScript values used by the monitoring page\<close>

text \<open>
  A JavaScript \<^verbatim>\<open>number\<close>. The finite values are kept as reals: the page only compares
  numbers and takes minima and maxima of them, which is exact on doubles, so every
  statement proved for all reals holds for every double. The two zeros are one value.
\<close>

datatype number = Fin real | PosInf | NegInf | NaN

fun isFinite :: "number \<Rightarrow> bool" where
  "isFinite (Fin x) = True"
| "isFinite PosInf = False"
| "isFinite NegInf = False"
| "isFinite NaN = False"

text \<open>\<^verbatim>\<open>a < b\<close> on numbers: false as soon as one side is \<^verbatim>\<open>NaN\<close>.\<close>

fun js_lt :: "number \<Rightarrow> number \<Rightarrow> bool" where
  "js_lt NaN b = False"
| "js_lt a NaN = False"
| "js_lt (Fin a) (Fin b) = (a < b)"
| "js_lt a NegInf = False"
| "js_lt NegInf b = True"
| "js_lt PosInf b = False"
| "js_lt (Fin a) PosInf = True"

text \<open>\<^verbatim>\<open>Math.min\<close> and \<^verbatim>\<open>Math.max\<close> of two numbers: \<^verbatim>\<open>NaN\<close> is contagious.\<close>

fun Math_min :: "number \<Rightarrow> number \<Rightarrow> number" where
  "Math_min NaN b = NaN"
| "Math_min a NaN = NaN"
| "Math_min (Fin a) (Fin b) = Fin (min a b)"
| "Math_min NegInf b = NegInf"
| "Math_min a NegInf = NegInf"
| "Math_min PosInf b = b"
| "Math_min a PosInf = a"

fun Math_max :: "number \<Rightarrow> number \<Rightarrow> number" where
  "Math_max NaN b = NaN"
| "Math_max a NaN = NaN"
| "Math_max (Fin a) (Fin b) = Fin (max a b)"
| "Math_max PosInf b = PosInf"
| "Math_max a PosInf = PosInf"
| "Math_max NegInf b = b"
| "Math_max a NegInf = a"

text \<open>
  \<^verbatim>\<open>function clamp(n, min, max) { return Math.max(min, Math.min(max, n)); }\<close>
\<close>

definition clamp :: "number \<Rightarrow> number \<Rightarrow> number \<Rightarrow> number" where
  "clamp n lo hi = Math_max lo (Math_min hi n)"

text \<open>
  The values \<^verbatim>\<open>JSON.parse\<close> can build. An object is the list of its own properties,
  each key once; reading a property that is absent gives \<^verbatim>\<open>undefined\<close>, which is
  \<open>None\<close> of \<open>json option\<close>.
\<close>

datatype json =
    JNull
  | JBool bool
  | JNum number
  | JStr string
  | JArr "json list"
  | JObj "(string \<times> json) list"

text \<open>The operands on which \<^verbatim>\<open>??\<close> moves on to its right-hand side: \<^verbatim>\<open>undefined\<close> and \<^verbatim>\<open>null\<close>.\<close>

fun nullish :: "json option \<Rightarrow> bool" where
  "nullish None = True"
| "nullish (Some JNull) = True"
| "nullish (Some v) = False"

definition coalesce :: "json option \<Rightarrow> json option \<Rightarrow> json option" where
  "coalesce a b = (if nullish a then b else a)"

text \<open>
  \<^verbatim>\<open>Number(v)\<close>. On \<^verbatim>\<open>undefined\<close>, \<^verbatim>\<open>null\<close>, booleans and numbers the language fixes the
  result. On a string (the runtime's string-to-number conversion) and on an array or an
  object (converted to a primitive first) the result is the parameter \<open>prim\<close>; it is
  \<open>None\<close> where the conversion throws a TypeError, as it does on an object whose own
  \<^verbatim>\<open>toString\<close> and \<^verbatim>\<open>valueOf\<close> are not callable.
\<close>

fun Number_js :: "(json \<Rightarrow> number option) \<Rightarrow> json option \<Rightarrow> number option" where
  "Number_js prim None = Some NaN"
| "Number_js prim (Some JNull) = Some (Fin 0)"
| "Number_js prim (Some (JBool b)) = Some (Fin (if b then 1 else 0))"
| "Number_js prim (Some (JNum x)) = Some x"
| "Number_js prim (Some v) = prim v"

section \<open>Strings\<close>

text \<open>
  Strings are lists of code units below 256. \<^verbatim>\<open>trim\<close> removes white space and line
  terminators at both ends; below 256 these are TAB, LF, VT, FF, CR, the space and the
  no-break space.
\<close>

definition is_js_space :: "char \<Rightarrow> bool" where
  "is_js_space c = (c \<in> set [CHR 0x09, CHR 0x0A, CHR 0x0B, CHR 0x0C, CHR 0x0D, CHR 0x20, CHR 0xA0])"

definition trim :: "string \<Rightarrow> string" where
  "trim s = rev (dropWhile is_js_space (rev (dropWhile is_js_space s)))"

definition startsWith :: "string \<Rightarrow> string \<Rightarrow> bool" where
  "startsWith s p = (take (length p) s = p)"

definition endsWith :: "string \<Rightarrow> string \<Rightarrow> bool" where
  "endsWith s p = (length p \<le> length s \<and> drop (length s - length p) s = p)"

section \<open>The line decoder\<close>

record RealtimeRow =
  timestamp :: string
  measuredPressure :: number
  temperature :: number
  cycleIndex :: "number option"

text \<open>
  The \<^verbatim>\<open>cycleIndex\<close> field of the row:
  \<^verbatim>\<open>typeof cycle === "number" ? cycle : Number.isFinite(Number(cycle)) ? Number(cycle) : undefined\<close>.
  The outer \<open>None\<close> is a TypeError thrown by \<^verbatim>\<open>Number(cycle)\<close>.
\<close>

definition cycleIndex_of :: "(json \<Rightarrow> number option) \<Rightarrow> json option \<Rightarrow> number option option" where
  "cycleIndex_of prim cycle =
     (case cycle of
        Some (JNum x) \<Rightarrow> Some (Some x)
      | _ \<Rightarrow>
         (case Number_js prim cycle of
            None \<Rightarrow> None
          | Some n \<Rightarrow> Some (if isFinite n then Some n else None)))"

text \<open>
  \<^verbatim>\<open>parseLine(line)\<close>. Its parameters beside the line are what the runtime supplies:
  \<open>JSON_parse\<close> is \<^verbatim>\<open>JSON.parse\<close> on a text that starts with an opening brace, giving the
  properties of the object it builds, or \<open>None\<close> where it throws a SyntaxError;
  \<open>prim\<close> is the conversion of \<open>Number_js\<close>; \<open>ts\<close> is \<^verbatim>\<open>new Date().toISOString()\<close>.
  Every exception raised inside the \<^verbatim>\<open>try\<close> block ends in \<^verbatim>\<open>return null\<close>.
\<close>

definition parseLine ::
  "(string \<Rightarrow> (string \<times> json) list option) \<Rightarrow> (json \<Rightarrow> number option) \<Rightarrow> string \<Rightarrow> string
     \<Rightarrow> RealtimeRow option" where
  "parseLine JSON_parse prim ts line =
     (let s = trim line in
      if s = [] then None
      else if \<not> startsWith s ''{'' then None
      else if \<not> endsWith s ''}'' then None
      else
        (case JSON_parse s of
           None \<Rightarrow> None
         | Some members \<Rightarrow>
            (let obj = map_of members in
             case Number_js prim
                    (coalesce (coalesce (coalesce (obj ''pressure'') (obj ''measuredPressure''))
                       (obj ''p'')) (obj ''pr'')) of
               None \<Rightarrow> None
             | Some pressure \<Rightarrow>
                (case Number_js prim
                        (coalesce (coalesce (obj ''temperature'') (obj ''temp'')) (obj ''t'')) of
                   None \<Rightarrow> None
                 | Some temp \<Rightarrow>
                    (let cycle = coalesce (obj ''cycle'') (obj ''cycleIndex'') in
                     if isFinite pressure \<and> isFinite temp then
                       (case cycleIndex_of prim cycle of
                          None \<Rightarrow> None
                        | Some ci \<Rightarrow>
                           Some \<lparr>timestamp = ts, measuredPressure = pressure,
                                 temperature = temp, cycleIndex = ci\<rparr>)
                     else None)))))"

section \<open>The state of the monitoring page\<close>

record Session =
  session_id :: string
  session_patient :: string
  startedAt :: string
  endedAt :: "string option"
  session_targetPressure :: number
  session_holdTimeSeconds :: number

record CreateSessionDto =
  dto_patientId :: string
  dto_targetPressure :: number
  dto_holdTimeSeconds :: number

record CreateSessionDataDto =
  dto_measuredPressure :: number
  dto_temperature :: number
  dto_cycleIndex :: "number option"

text \<open>
  What a handler asks of the outside world, in the order it asks: the two calls of
  \<^verbatim>\<open>sessionService\<close> and the command lines written to the device.
\<close>

datatype effect =
    PostSession CreateSessionDto
  | PostData string CreateSessionDataDto
  | WriteLine string

text \<open>
  How an awaited promise settles: with a value, or rejected. \<open>Rejected (Some m)\<close> is an
  \<^verbatim>\<open>Error\<close> with message \<open>m\<close>, \<open>Rejected None\<close> any other thrown value.
\<close>

datatype 'a settled = Resolved 'a | Rejected "string option"

text \<open>
  The \<^verbatim>\<open>useState\<close> cells and the two \<^verbatim>\<open>useRef\<close> cells of \<^verbatim>\<open>MonitoringPage\<close>. Ports and the
  open connection are opaque handles. \<^verbatim>\<open>lastSentRef\<close> holds a \<^verbatim>\<open>Date.now()\<close> value, an
  integer count of milliseconds.
\<close>

record state =
  patientId :: string
  session :: "Session option"
  targetPressure :: number
  holdTimeSeconds :: number
  ports :: "nat list"
  selectedPortIdx :: int
  io :: "nat option"
  isMonitoring :: bool
  startedFromDevice :: bool
  loading :: bool
  err :: "string option"
  realtime :: "RealtimeRow list"
  lastSentRef :: int
  closeLoopRef :: bool

definition initial_state :: state where
  "initial_state =
     \<lparr>patientId = [], session = None, targetPressure = Fin 30, holdTimeSeconds = Fin 10,
      ports = [], selectedPortIdx = - 1, io = None, isMonitoring = False,
      startedFromDevice = False, loading = False, err = None, realtime = [],
      lastSentRef = 0, closeLoopRef = False\<rparr>"

text \<open>
  \<^verbatim>\<open>e instanceof Error ? e.message : fallback\<close>, the message every \<^verbatim>\<open>catch\<close> block of the
  page computes.
\<close>

definition message_of :: "string option \<Rightarrow> string \<Rightarrow> string" where
  "message_of e fallback = (case e of Some m \<Rightarrow> m | None \<Rightarrow> fallback)"

subsection \<open>The rules that enable the buttons\<close>

definition canCreateSession :: "state \<Rightarrow> bool" where
  "canCreateSession st =
     (patientId st \<noteq> [] \<and> session st = None \<and> js_lt (Fin 0) (targetPressure st)
      \<and> js_lt (Fin 0) (holdTimeSeconds st))"

definition isConnected :: "state \<Rightarrow> bool" where
  "isConnected st = (io st \<noteq> None)"

definition canConnect :: "state \<Rightarrow> bool" where
  "canConnect st = (session st \<noteq> None \<and> 0 \<le> selectedPortIdx st \<and> \<not> isConnected st)"

definition canStart :: "state \<Rightarrow> bool" where
  "canStart st = (session st \<noteq> None \<and> isConnected st \<and> \<not> isMonitoring st)"

definition canStop :: "state \<Rightarrow> bool" where
  "canStop st = (session st \<noteq> None \<and> isMonitoring st)"

definition canReset :: "state \<Rightarrow> bool" where
  "canReset st = (\<not> isMonitoring st \<and> (session st \<noteq> None \<or> patientId st \<noteq> []))"

subsection \<open>The handlers\<close>

text \<open>
  A handler runs on the state of the render it was created in and is modelled as one
  transition: it takes how each promise it awaits settles and returns the state after
  its last \<^verbatim>\<open>set\<close> call, with the effects it asked for.

  \<^verbatim>\<open>handleCreateSession\<close>: the only test before the call of the backend is
  \<^verbatim>\<open>if (!patientId) return\<close>.
\<close>

definition handleCreateSession :: "Session settled \<Rightarrow> state \<Rightarrow> state \<times> effect list" where
  "handleCreateSession created st =
     (if patientId st = [] then (st, [])
      else
        (let dto = \<lparr>dto_patientId = patientId st, dto_targetPressure = targetPressure st,
                    dto_holdTimeSeconds = holdTimeSeconds st\<rparr>
         in case created of
              Resolved s \<Rightarrow> (st\<lparr>err := None, session := Some s, loading := False\<rparr>, [PostSession dto])
            | Rejected e \<Rightarrow>
               (st\<lparr>err := Some (message_of e (''Error creando la sesi'' @ [CHR 0xF3] @ ''n.'')),
                   loading := False\<rparr>,
                [PostSession dto])))"

text \<open>
  The values of \<^verbatim>\<open>session\<close> and \<^verbatim>\<open>isMonitoring\<close> that a running \<^verbatim>\<open>readLoop\<close> reads. Both are
  \<^verbatim>\<open>const\<close> bindings of the render in which \<^verbatim>\<open>handleConnect\<close> started the loop: the loop
  is a closure of that render, so it keeps reading these whatever the \<^verbatim>\<open>set\<close> calls
  store later. The two refs are read from the state itself.
\<close>

record closure =
  cl_session :: "Session option"
  cl_isMonitoring :: bool

text \<open>
  \<^verbatim>\<open>handleConnect\<close>, given how \<^verbatim>\<open>openPort\<close> settles. With the port open it stores the
  connection, clears \<^verbatim>\<open>closeLoopRef\<close> and starts \<^verbatim>\<open>readLoop\<close>: the second component is the
  closure of the loop it started.
\<close>

definition handleConnect :: "nat settled \<Rightarrow> state \<Rightarrow> state \<times> closure option" where
  "handleConnect opened st =
     (if selectedPortIdx st < 0 then (st, None)
      else
        (case opened of
           Resolved port_io \<Rightarrow>
             (st\<lparr>err := None, io := Some port_io, closeLoopRef := False\<rparr>,
              Some \<lparr>cl_session = session st, cl_isMonitoring = isMonitoring st\<rparr>)
         | Rejected e \<Rightarrow>
             (st\<lparr>err := Some (message_of e ''No se pudo abrir el puerto serial.'')\<rparr>, None)))"

text \<open>\<^verbatim>\<open>handleDisconnect\<close>: a failure of \<^verbatim>\<open>io.close()\<close> is swallowed, so its outcome is no input.\<close>

definition handleDisconnect :: "state \<Rightarrow> state" where
  "handleDisconnect st =
     (if io st = None then st else st\<lparr>closeLoopRef := True, io := None\<rparr>)"

text \<open>
  \<^verbatim>\<open>handleStart\<close> and \<^verbatim>\<open>handleStop\<close>, given whether \<^verbatim>\<open>writeLine\<close> succeeds. When it throws,
  the handler ends there and the \<^verbatim>\<open>set\<close> call after it is not reached.
\<close>

definition handleStart :: "bool \<Rightarrow> state \<Rightarrow> state \<times> effect list" where
  "handleStart written st =
     (if io st = None then (st, [])
      else if session st = None then (st, [])
      else
        (let st1 = st\<lparr>err := None, startedFromDevice := False\<rparr>
         in if written then (st1\<lparr>isMonitoring := True\<rparr>, [WriteLine ''I''])
            else (st1, [WriteLine ''I''])))"

definition handleStop :: "bool \<Rightarrow> state \<Rightarrow> state \<times> effect list" where
  "handleStop written st =
     (if io st = None then (st, [])
      else if session st = None then (st, [])
      else
        (let st1 = st\<lparr>err := None\<rparr>
         in if written then (st1\<lparr>isMonitoring := False\<rparr>, [WriteLine ''S''])
            else (st1, [WriteLine ''S''])))"

definition handleReset :: "state \<Rightarrow> state" where
  "handleReset st =
     (if isMonitoring st then st
      else
        (handleDisconnect st)
          \<lparr>realtime := [], startedFromDevice := False, session := None, patientId := [],
           err := None, selectedPortIdx := - 1, targetPressure := Fin 30,
           holdTimeSeconds := Fin 10\<rparr>)"

section \<open>The read loop\<close>

text \<open>\<^verbatim>\<open>xs.slice(-n)\<close>: the last \<open>n\<close> elements, all of them when there are fewer.\<close>

definition slice_last :: "nat \<Rightarrow> 'a list \<Rightarrow> 'a list" where
  "slice_last n xs = drop (length xs - n) xs"

text \<open>
  Where \<^verbatim>\<open>readLoop\<close> stands between two events: suspended in \<^verbatim>\<open>await connected.reader.read()\<close>,
  suspended in \<^verbatim>\<open>await sessionService.addData(...)\<close>, or ended.
\<close>

datatype pc = AwaitRead | AwaitAddData | Exited

text \<open>
  The test \<^verbatim>\<open>while (!closeLoopRef.current)\<close>, reached at the start and after every
  \<^verbatim>\<open>continue\<close> or completed iteration; passing it leads straight to the next read.
\<close>

definition loop_head :: "state \<Rightarrow> pc" where
  "loop_head st = (if closeLoopRef st then Exited else AwaitRead)"

text \<open>
  What the loop does when its pending \<^verbatim>\<open>reader.read()\<close> settles, up to the next point
  where it is suspended or has ended. \<open>ts\<close> and \<open>now\<close> are the clock as \<^verbatim>\<open>parseLine\<close> and
  \<^verbatim>\<open>Date.now()\<close> read it. The row appended to \<^verbatim>\<open>realtime\<close> is \<^verbatim>\<open>reading\<close> itself; \<^verbatim>\<open>clamp\<close>
  is applied where the argument of \<^verbatim>\<open>addData\<close> is built.
\<close>

definition readLoop_read ::
  "(string \<Rightarrow> (string \<times> json) list option) \<Rightarrow> (json \<Rightarrow> number option) \<Rightarrow> closure
     \<Rightarrow> (string option \<times> bool) settled \<Rightarrow> string \<Rightarrow> int \<Rightarrow> state \<Rightarrow> state \<times> pc \<times> effect list" where
  "readLoop_read JSON_parse prim cl rd ts now st =
     (case rd of
        Rejected e \<Rightarrow>
          (if closeLoopRef st then (st, Exited, [])
           else (st\<lparr>err := Some (message_of e ''Error leyendo datos del dispositivo.'')\<rparr>,
                 Exited, []))
      | Resolved (value, done) \<Rightarrow>
          (if done then (st, Exited, [])
           else
             (case value of
                None \<Rightarrow> (st, loop_head st, [])
              | Some line \<Rightarrow>
                 (if line = [] then (st, loop_head st, [])
                  else
                    (case parseLine JSON_parse prim ts line of
                       None \<Rightarrow> (st, loop_head st, [])
                     | Some reading \<Rightarrow>
                        (let st1 = (if cl_session cl \<noteq> None \<and> \<not> cl_isMonitoring cl
                                    then st\<lparr>isMonitoring := True, startedFromDevice := True\<rparr>
                                    else st);
                             st2 = st1\<lparr>realtime := slice_last 200 (realtime st1 @ [reading])\<rparr>
                         in case cl_session cl of
                              None \<Rightarrow> (st2, loop_head st2, [])
                            | Some s \<Rightarrow>
                               (if 1000 \<le> now - lastSentRef st2 then
                                  (st2\<lparr>lastSentRef := now\<rparr>, AwaitAddData,
                                   [PostData (session_id s)
                                      \<lparr>dto_measuredPressure =
                                         clamp (measuredPressure reading) (Fin 0) (Fin 200),
                                       dto_temperature =
                                         clamp (temperature reading) (Fin 0) (Fin 80),
                                       dto_cycleIndex = cycleIndex reading\<rparr>])
                                else (st2, loop_head st2, []))))))))"

text \<open>
  What the loop does when the \<^verbatim>\<open>addData\<close> call it awaits settles: the value is dropped,
  a rejection ends in the empty \<^verbatim>\<open>catch\<close> block, and the iteration is over.
\<close>

definition readLoop_settled :: "unit settled \<Rightarrow> state \<Rightarrow> state \<times> pc \<times> effect list" where
  "readLoop_settled uploaded st =
     (case uploaded of
        Resolved u \<Rightarrow> (st, loop_head st, [])
      | Rejected e \<Rightarrow> (st, loop_head st, []))"

text \<open>
  One turn of the loop as the outside world drives it: how the read settles, the two
  clock readings, and how the \<^verbatim>\<open>addData\<close> call settles if the turn makes one.
\<close>

type_synonym turn = "(string option \<times> bool) settled \<times> string \<times> int \<times> unit settled"

definition readLoop_turn ::
  "(string \<Rightarrow> (string \<times> json) list option) \<Rightarrow> (json \<Rightarrow> number option) \<Rightarrow> closure
     \<Rightarrow> turn \<Rightarrow> state \<Rightarrow> state \<times> pc \<times> effect list" where
  "readLoop_turn JSON_parse prim cl t st =
     (case t of
        (rd, ts, now, uploaded) \<Rightarrow>
          (case readLoop_read JSON_parse prim cl rd ts now st of
             (st1, AwaitAddData, es) \<Rightarrow>
               (case readLoop_settled uploaded st1 of
                  (st2, p, es2) \<Rightarrow> (st2, p, es @ es2))
           | (st1, p, es) \<Rightarrow> (st1, p, es)))"

text \<open>
  The loop over a script of turns, from its first read on, with no handler running in
  between. It returns the last state, where the loop stands, and every request made,
  each with the \<^verbatim>\<open>Date.now()\<close> of the turn that made it.
\<close>

fun readLoop ::
  "(string \<Rightarrow> (string \<times> json) list option) \<Rightarrow> (json \<Rightarrow> number option) \<Rightarrow> closure
     \<Rightarrow> turn list \<Rightarrow> state \<Rightarrow> state \<times> pc \<times> (int \<times> effect) list" where
  "readLoop JSON_parse prim cl [] st = (st, AwaitRead, [])"
| "readLoop JSON_parse prim cl (t # rest) st =
     (case readLoop_turn JSON_parse prim cl t st of
        (st1, AwaitRead, es) \<Rightarrow>
          (case readLoop JSON_parse prim cl rest st1 of
             (st2, p, reqs) \<Rightarrow> (st2, p, map (Pair (fst (snd (snd t)))) es @ reqs))
      | (st1, p, es) \<Rightarrow> (st1, p, map (Pair (fst (snd (snd t)))) es))"

section \<open>Sample data\<close>

definition sample_session :: Session where
  "sample_session =
     \<lparr>session_id = ''s1'', session_patient = ''p1'', startedAt = ''2025-01-01T00:00:00.000Z'',
      endedAt = None, session_targetPressure = Fin 30, session_holdTimeSeconds = Fin 10\<rparr>"

text \<open>
  The page once a patient is chosen, the session is created and the first device is
  selected.
\<close>

definition ready_state :: state where
  "ready_state =
     initial_state\<lparr>patientId := ''p1'', session := Some sample_session, ports := [0],
                   selectedPortIdx := 0\<rparr>"

text \<open>
  Three lines a device can send. The second and third have a field that is \<^verbatim>\<open>null\<close>.
\<close>

definition line_A :: string where
  \<open>line_A = ''{"p":250,"t":10}''\<close>

definition line_B :: string where
  \<open>line_B = ''{"pressure":null,"p":5,"t":null}''\<close>

definition line_C :: string where
  \<open>line_C = ''{"p":1,"t":2,"cycle":{"toString":1,"valueOf":2}}''\<close>

text \<open>
  \<^verbatim>\<open>JSON.parse\<close> on the sample lines, and \<^verbatim>\<open>Number\<close> on the one value of theirs that is
  not a number or \<^verbatim>\<open>null\<close>: the object of the third line, whose \<^verbatim>\<open>toString\<close> and \<^verbatim>\<open>valueOf\<close>
  are numbers, so that the conversion throws.
\<close>

definition sample_JSON_parse :: "string \<Rightarrow> (string \<times> json) list option" where
  "sample_JSON_parse s =
     (if s = line_A then Some [(''p'', JNum (Fin 250)), (''t'', JNum (Fin 10))]
      else if s = line_B then Some [(''pressure'', JNull), (''p'', JNum (Fin 5)), (''t'', JNull)]
      else if s = line_C then
        Some [(''p'', JNum (Fin 1)), (''t'', JNum (Fin 2)),
              (''cycle'', JObj [(''toString'', JNum (Fin 1)), (''valueOf'', JNum (Fin 2))])]
      else None)"

definition sample_prim :: "json \<Rightarrow> number option" where
  "sample_prim v =
     (if v = JObj [(''toString'', JNum (Fin 1)), (''valueOf'', JNum (Fin 2))] then None
      else Some NaN)"

text \<open>The row \<^verbatim>\<open>parseLine\<close> makes of the first line when the clock shows \<open>T\<close>.\<close>

definition row_A :: RealtimeRow where
  "row_A = \<lparr>timestamp = ''T'', measuredPressure = Fin 250, temperature = Fin 10, cycleIndex = None\<rparr>"

text \<open>The row \<^verbatim>\<open>parseLine\<close> makes of the second line.\<close>

definition row_B :: RealtimeRow where
  "row_B = \<lparr>timestamp = ''T'', measuredPressure = Fin 5, temperature = Fin 0, cycleIndex = None\<rparr>"

definition sample_closure :: closure where
  "sample_closure = \<lparr>cl_session = Some sample_session, cl_isMonitoring = False\<rparr>"

text \<open>The page after \<^verbatim>\<open>handleConnect\<close> has opened the selected port.\<close>

definition connected_state :: state where
  "connected_state = fst (handleConnect (Resolved 7) ready_state)"

text \<open>
  A run of the page in which the device starts a cycle by itself: the port is open, the
  first line arrives and its upload succeeds.
\<close>

definition device_started_state :: state where
  "device_started_state =
     fst (readLoop_turn sample_JSON_parse sample_prim sample_closure
            (Resolved (Some line_A, False), ''T'', 5000, Resolved ()) connected_state)"

text \<open>
  A run of the page in which the operator disconnects while cycles are running and
  connects again: connect, start, disconnect, connect, stop. \<open>reconnected\<close> is the
  second \<^verbatim>\<open>handleConnect\<close>, with the state it leaves and the closure of the loop it starts.
\<close>

definition disconnected_while_monitoring :: state where
  "disconnected_while_monitoring = handleDisconnect (fst (handleStart True connected_state))"

definition reconnected :: "state \<times> closure option" where
  "reconnected = handleConnect (Resolved 8) disconnected_while_monitoring"

definition stopped_after_reconnect :: state where
  "stopped_after_reconnect = fst (handleStop True (fst reconnected))"

text \<open>The turn in which the first line arrives at clock \<open>now\<close> and its upload succeeds.\<close>

definition turn_A :: "int \<Rightarrow> turn" where
  "turn_A now = (Resolved (Some line_A, False), ''T'', now, Resolved ())"

text \<open>A second session, as the backend could return it.\<close>

definition other_session :: Session where
  "other_session = sample_session\<lparr>session_id := ''s2''\<rparr>"

section \<open>Predicates of the statements\<close>

text \<open>A number that is finite and lies between two bounds.\<close>

fun in_range :: "real \<Rightarrow> real \<Rightarrow> number \<Rightarrow> bool" where
  "in_range lo hi (Fin v) = (lo \<le> v \<and> v \<le> hi)"
| "in_range lo hi PosInf = False"
| "in_range lo hi NegInf = False"
| "in_range lo hi NaN = False"

text \<open>
  The reading a turn hands to the buffer and the throttler: the read resolves with a
  line, not at the end of the stream, and the line decodes.
\<close>

definition decoded ::
  "(string \<Rightarrow> (string \<times> json) list option) \<Rightarrow> (json \<Rightarrow> number option) \<Rightarrow> turn
     \<Rightarrow> RealtimeRow option" where
  "decoded JSON_parse prim t =
     (case t of
        (Resolved (Some line, False), ts, now, uploaded) \<Rightarrow>
          (if line = [] then None else parseLine JSON_parse prim ts line)
      | _ \<Rightarrow> None)"

text \<open>The \<^verbatim>\<open>Date.now()\<close> of a turn, and a turn with another outcome of its upload.\<close>

definition turn_now :: "turn \<Rightarrow> int" where
  "turn_now t = fst (snd (snd t))"

definition set_uploaded :: "unit settled \<Rightarrow> turn \<Rightarrow> turn" where
  "set_uploaded u t = (case t of (rd, ts, now, uploaded) \<Rightarrow> (rd, ts, now, u))"

text \<open>
  Clock readings spaced 1000 ms or more apart, the first one that far from \<open>prev\<close>.
\<close>

fun spaced :: "int \<Rightarrow> int list \<Rightarrow> bool" where
  "spaced prev [] = True"
| "spaced prev (t # ts) = (1000 \<le> t - prev \<and> spaced t ts)"

text \<open>
  The decoder as the specification words it: the trimmed line is a JSON object, one value
  is chosen among the pressure aliases and one among the temperature aliases, both coerce
  to finite numbers, and the row carries these with the cycle index. It is stated for any
  rule \<open>pick\<close> that chooses the value among aliases and any rule \<open>cyc\<close> for the cycle
  index (\<open>None\<close> of \<open>cyc\<close> rejects the line).
\<close>

definition parse_by_rule ::
  "((string \<Rightarrow> json option) \<Rightarrow> string list \<Rightarrow> json option)
     \<Rightarrow> ((json \<Rightarrow> number option) \<Rightarrow> json option \<Rightarrow> number option option)
     \<Rightarrow> (string \<Rightarrow> (string \<times> json) list option) \<Rightarrow> (json \<Rightarrow> number option) \<Rightarrow> string \<Rightarrow> string
     \<Rightarrow> RealtimeRow option" where
  "parse_by_rule pick cyc JSON_parse prim ts line =
     (let s = trim line in
      if startsWith s ''{'' \<and> endsWith s ''}'' then
        (case JSON_parse s of
           None \<Rightarrow> None
         | Some members \<Rightarrow>
            (case (Number_js prim
                     (pick (map_of members) [''pressure'', ''measuredPressure'', ''p'', ''pr'']),
                   Number_js prim (pick (map_of members) [''temperature'', ''temp'', ''t'']),
                   cyc prim (pick (map_of members) [''cycle'', ''cycleIndex''])) of
               (Some (Fin p), Some (Fin t), Some ci) \<Rightarrow>
                 Some \<lparr>timestamp = ts, measuredPressure = Fin p, temperature = Fin t,
                       cycleIndex = ci\<rparr>
             | _ \<Rightarrow> None))
      else None)"

text \<open>
  "Taking the first field present", read as the first alias that is a key of the object,
  and read as the first alias whose value is not \<^verbatim>\<open>null\<close>.
\<close>

fun first_present :: "(string \<Rightarrow> json option) \<Rightarrow> string list \<Rightarrow> json option" where
  "first_present obj [] = None"
| "first_present obj (k # ks) =
     (case obj k of Some v \<Rightarrow> Some v | None \<Rightarrow> first_present obj ks)"

fun first_non_null :: "(string \<Rightarrow> json option) \<Rightarrow> string list \<Rightarrow> json option" where
  "first_non_null obj [] = None"
| "first_non_null obj (k # ks) = (if nullish (obj k) then first_non_null obj ks else obj k)"

text \<open>
  The cycle index as the specification words it: the coerced value where the field
  coerces to a finite number, dropped otherwise, the line never rejected for it.
\<close>

definition cycle_dropped :: "(json \<Rightarrow> number option) \<Rightarrow> json option \<Rightarrow> number option option" where
  "cycle_dropped prim v =
     Some (case Number_js prim v of
             Some (Fin c) \<Rightarrow> Some (Fin c)
           | _ \<Rightarrow> None)"

text \<open>
  The two rules amended. Among aliases: the first whose value is neither absent nor
  \<^verbatim>\<open>null\<close>, and the value of the last alias when there is none. For the cycle index: a
  JSON number is kept as it is, any other value is coerced and kept when finite, dropped
  when not, and the line is rejected when the coercion throws.
\<close>

fun first_value :: "(string \<Rightarrow> json option) \<Rightarrow> string list \<Rightarrow> json option" where
  "first_value obj [] = None"
| "first_value obj [k] = obj k"
| "first_value obj (k # ks) = (if nullish (obj k) then first_value obj ks else obj k)"

fun cycle_kept :: "(json \<Rightarrow> number option) \<Rightarrow> json option \<Rightarrow> number option option" where
  "cycle_kept prim (Some (JNum x)) = Some (Some x)"
| "cycle_kept prim v =
     (case Number_js prim v of
        None \<Rightarrow> None
      | Some (Fin c) \<Rightarrow> Some (Some (Fin c))
      | Some n \<Rightarrow> Some None)"

text \<open>
  The request the loop makes for a row in the session \<open>s\<close>: the call
  \<^verbatim>\<open>sessionService.addData(session.id, {...})\<close> with the argument the loop builds.
\<close>

definition request_for :: "Session \<Rightarrow> RealtimeRow \<Rightarrow> effect" where
  "request_for s r =
     PostData (session_id s)
       \<lparr>dto_measuredPressure = clamp (measuredPressure r) (Fin 0) (Fin 200),
        dto_temperature = clamp (temperature r) (Fin 0) (Fin 80),
        dto_cycleIndex = cycleIndex r\<rparr>"

text \<open>The invariant of the data model: the monitoring flag is set only while a connection is open.\<close>

definition monitoring_needs_connection :: "state \<Rightarrow> bool" where
  "monitoring_needs_connection st = (isMonitoring st \<longrightarrow> io st \<noteq> None)"

section \<open>Properties\<close>

subsection \<open>Facts about the decoder, the clamp and one step of the loop\<close>

lemma parseLine_finite:
  assumes "parseLine JSON_parse prim ts line = Some r"
  shows "isFinite (measuredPressure r) \<and> isFinite (temperature r)"
  using assms
  by (auto simp: parseLine_def Let_def split: if_splits option.splits)

lemma clamp_in_range:
  assumes "isFinite n" and "lo \<le> hi"
  shows "in_range lo hi (clamp n (Fin lo) (Fin hi))"
  using assms by (cases n) (auto simp: clamp_def)

lemma readLoop_read_reading:
  assumes "parseLine JSON_parse prim ts line = Some reading" and "line \<noteq> []"
  shows "readLoop_read JSON_parse prim cl (Resolved (Some line, False)) ts now st =
     (let st1 = (if cl_session cl \<noteq> None \<and> \<not> cl_isMonitoring cl
                 then st\<lparr>isMonitoring := True, startedFromDevice := True\<rparr> else st);
          st2 = st1\<lparr>realtime := slice_last 200 (realtime st1 @ [reading])\<rparr>
      in case cl_session cl of
           None \<Rightarrow> (st2, loop_head st2, [])
         | Some s \<Rightarrow>
            (if 1000 \<le> now - lastSentRef st2 then
               (st2\<lparr>lastSentRef := now\<rparr>, AwaitAddData,
                [PostData (session_id s)
                   \<lparr>dto_measuredPressure = clamp (measuredPressure reading) (Fin 0) (Fin 200),
                    dto_temperature = clamp (temperature reading) (Fin 0) (Fin 80),
                    dto_cycleIndex = cycleIndex reading\<rparr>])
             else (st2, loop_head st2, [])))"
  using assms by (simp add: readLoop_read_def)

lemma readLoop_read_effects:
  assumes "readLoop_read JSON_parse prim cl rd ts now st = (st', p, es)"
    and "e \<in> set es"
  shows "\<exists>line reading. \<exists>s :: Session. rd = Resolved (Some line, False) \<and> line \<noteq> []
     \<and> parseLine JSON_parse prim ts line = Some reading \<and> cl_session cl = Some s
     \<and> 1000 \<le> now - lastSentRef st
     \<and> es = [PostData (session_id s)
                   \<lparr>dto_measuredPressure = clamp (measuredPressure reading) (Fin 0) (Fin 200),
                    dto_temperature = clamp (temperature reading) (Fin 0) (Fin 80),
                    dto_cycleIndex = cycleIndex reading\<rparr>]"
  using assms
  by (auto simp: readLoop_read_def Let_def split: settled.splits if_splits option.splits prod.splits)

lemma clamp_value:
  assumes "isFinite n"
  shows "\<exists>v. n = Fin v \<and> clamp n (Fin lo) (Fin hi) = Fin (max lo (min hi v))"
  using assms by (cases n) (simp_all add: clamp_def)

lemma readLoop_read_at_most_one:
  assumes "readLoop_read JSON_parse prim cl rd ts now st = (st', p, es)"
  shows "length es \<le> 1" and "\<forall>e \<in> set es. \<exists>sid d. e = PostData sid d"
  using assms
  by (auto simp: readLoop_read_def Let_def
      split: settled.splits if_splits option.splits prod.splits)

subsection \<open>The sample data evaluated\<close>

lemma trim_line_A: "trim line_A = line_A"
  by (simp add: trim_def is_js_space_def line_A_def)

lemma parse_line_A: "parseLine sample_JSON_parse sample_prim ''T'' line_A = Some row_A"
  unfolding parseLine_def trim_line_A
  by (simp add: line_A_def startsWith_def endsWith_def sample_JSON_parse_def coalesce_def
      cycleIndex_of_def row_A_def)

lemma line_A_nonempty: "line_A \<noteq> []"
  by (simp add: line_A_def)

lemma connected_state_eq:
  "connected_state = ready_state\<lparr>err := None, io := Some 7, closeLoopRef := False\<rparr>"
  by (simp add: connected_state_def handleConnect_def ready_state_def initial_state_def)

lemma read_line_A:
  "readLoop_read sample_JSON_parse sample_prim sample_closure
     (Resolved (Some line_A, False)) ''T'' 5000 connected_state =
   (connected_state\<lparr>isMonitoring := True, startedFromDevice := True, realtime := [row_A],
       lastSentRef := 5000\<rparr>, AwaitAddData,
    [PostData ''s1'' \<lparr>dto_measuredPressure = Fin 200, dto_temperature = Fin 10, dto_cycleIndex = None\<rparr>])"
  by (simp add: readLoop_read_reading [OF parse_line_A line_A_nonempty] sample_closure_def
      sample_session_def connected_state_eq ready_state_def initial_state_def slice_last_def
      clamp_def row_A_def)

subsection \<open>Clamping\<close>

text \<open>
  C1, as stated, at the line \<^verbatim>\<open>{"p":250,"t":10}\<close>: the row the loop appends to \<^verbatim>\<open>realtime\<close>
  has the pressure 250, outside the range from 0 to 200.
\<close>

theorem C1_buffer_counterexample:
  "\<not> in_range 0 200 (measuredPressure (last (realtime (fst
       (readLoop_read sample_JSON_parse sample_prim sample_closure
          (Resolved (Some line_A, False)) ''T'' 5000 connected_state)))))"
  by (simp add: read_line_A row_A_def)

text \<open>
  C1, amended: whatever the read gives, every \<^verbatim>\<open>addData\<close> request of the step carries the
  clamped values of the reading decoded from the line: the pressure \<open>max 0 (min 200 v)\<close>
  and the temperature \<open>max 0 (min 80 w)\<close> of its finite pressure \<open>v\<close> and temperature
  \<open>w\<close>, hence a pressure in the range from 0 to 200 and a temperature in the range from
  0 to 80, with the cycle index as decoded; when the line decodes, the row appended to the
  buffer is the decoded reading as it is, with no clamp applied; and when the line decodes
  in a loop that has a session and the upload is due, the step makes exactly one such
  request, for that session.
\<close>

theorem C1_forwarded_clamped_buffer_as_decoded:
  assumes "readLoop_read JSON_parse prim cl rd ts now st = (st', p, es)"
  shows "(\<forall>sid d. PostData sid d \<in> set es \<longrightarrow>
            in_range 0 200 (dto_measuredPressure d) \<and> in_range 0 80 (dto_temperature d)
            \<and> (\<exists>line reading v w.
                  rd = Resolved (Some line, False)
                  \<and> parseLine JSON_parse prim ts line = Some reading
                  \<and> measuredPressure reading = Fin v \<and> temperature reading = Fin w
                  \<and> dto_measuredPressure d = Fin (max 0 (min 200 v))
                  \<and> dto_temperature d = Fin (max 0 (min 80 w))
                  \<and> dto_cycleIndex d = cycleIndex reading))
       \<and> (\<forall>line reading. rd = Resolved (Some line, False) \<and> line \<noteq> []
            \<and> parseLine JSON_parse prim ts line = Some reading \<longrightarrow>
            realtime st' = slice_last 200 (realtime st @ [reading]))
       \<and> (\<forall>line reading s. rd = Resolved (Some line, False) \<and> line \<noteq> []
            \<and> parseLine JSON_parse prim ts line = Some reading
            \<and> cl_session cl = Some s \<and> 1000 \<le> now - lastSentRef st \<longrightarrow>
            (\<exists>d. es = [PostData (session_id s) d]))"
proof (intro conjI)
  show "\<forall>sid d. PostData sid d \<in> set es \<longrightarrow>
            in_range 0 200 (dto_measuredPressure d) \<and> in_range 0 80 (dto_temperature d)
            \<and> (\<exists>line reading v w.
                  rd = Resolved (Some line, False)
                  \<and> parseLine JSON_parse prim ts line = Some reading
                  \<and> measuredPressure reading = Fin v \<and> temperature reading = Fin w
                  \<and> dto_measuredPressure d = Fin (max 0 (min 200 v))
                  \<and> dto_temperature d = Fin (max 0 (min 80 w))
                  \<and> dto_cycleIndex d = cycleIndex reading)"
  proof (intro allI impI)
    fix sid d
    assume mem: "PostData sid d \<in> set es"
    from readLoop_read_effects [OF assms mem]
    obtain line reading and s :: Session where
      rd: "rd = Resolved (Some line, False)"
      and r: "parseLine JSON_parse prim ts line = Some reading"
      and es: "es = [PostData (session_id s)
                   \<lparr>dto_measuredPressure = clamp (measuredPressure reading) (Fin 0) (Fin 200),
                    dto_temperature = clamp (temperature reading) (Fin 0) (Fin 80),
                    dto_cycleIndex = cycleIndex reading\<rparr>]"
      by blast
    from es mem
    have d: "d = \<lparr>dto_measuredPressure = clamp (measuredPressure reading) (Fin 0) (Fin 200),
                    dto_temperature = clamp (temperature reading) (Fin 0) (Fin 80),
                    dto_cycleIndex = cycleIndex reading\<rparr>"
      by simp
    from parseLine_finite [OF r] clamp_value [of "measuredPressure reading" 0 200]
    obtain v where v: "measuredPressure reading = Fin v"
      and cv: "clamp (measuredPressure reading) (Fin 0) (Fin 200) = Fin (max 0 (min 200 v))"
      by blast
    from parseLine_finite [OF r] clamp_value [of "temperature reading" 0 80]
    obtain w where w: "temperature reading = Fin w"
      and cw: "clamp (temperature reading) (Fin 0) (Fin 80) = Fin (max 0 (min 80 w))"
      by blast
    have range: "in_range 0 200 (dto_measuredPressure d) \<and> in_range 0 80 (dto_temperature d)"
      unfolding d using parseLine_finite [OF r] by (simp add: clamp_in_range)
    have fields: "dto_measuredPressure d = Fin (max 0 (min 200 v))
        \<and> dto_temperature d = Fin (max 0 (min 80 w))
        \<and> dto_cycleIndex d = cycleIndex reading"
      unfolding d by (simp add: cv cw)
    from range rd r v w fields
    show "in_range 0 200 (dto_measuredPressure d) \<and> in_range 0 80 (dto_temperature d)
            \<and> (\<exists>line reading v w.
                  rd = Resolved (Some line, False)
                  \<and> parseLine JSON_parse prim ts line = Some reading
                  \<and> measuredPressure reading = Fin v \<and> temperature reading = Fin w
                  \<and> dto_measuredPressure d = Fin (max 0 (min 200 v))
                  \<and> dto_temperature d = Fin (max 0 (min 80 w))
                  \<and> dto_cycleIndex d = cycleIndex reading)"
      by blast
  qed
next
  show "\<forall>line reading. rd = Resolved (Some line, False) \<and> line \<noteq> []
            \<and> parseLine JSON_parse prim ts line = Some reading \<longrightarrow>
            realtime st' = slice_last 200 (realtime st @ [reading])"
    using assms
    by (auto simp: readLoop_read_reading Let_def split: option.splits if_splits)
next
  show "\<forall>line reading s. rd = Resolved (Some line, False) \<and> line \<noteq> []
            \<and> parseLine JSON_parse prim ts line = Some reading
            \<and> cl_session cl = Some s \<and> 1000 \<le> now - lastSentRef st \<longrightarrow>
            (\<exists>d. es = [PostData (session_id s) d])"
    using assms
    by (auto simp: readLoop_read_reading Let_def split: option.splits if_splits)
qed

theorem C1_forwarded_clamped_witness:
  "in_range 0 200 (Fin 200) \<and> in_range 0 80 (Fin 10)
   \<and> (\<exists>line reading v w.
         Resolved (Some line_A, False) = Resolved (Some line, False)
         \<and> parseLine sample_JSON_parse sample_prim ''T'' line = Some reading
         \<and> measuredPressure reading = Fin v \<and> temperature reading = Fin w
         \<and> Fin 200 = Fin (max 0 (min 200 v)) \<and> Fin 10 = Fin (max 0 (min 80 w)))
   \<and> realtime (connected_state\<lparr>isMonitoring := True, startedFromDevice := True,
        realtime := [row_A], lastSentRef := 5000\<rparr>)
     = slice_last 200 (realtime connected_state @ [row_A])
   \<and> (\<exists>d. [PostData ''s1'' \<lparr>dto_measuredPressure = Fin 200, dto_temperature = Fin 10,
                               dto_cycleIndex = None\<rparr>]
           = [PostData (session_id sample_session) d])"
proof -
  note th = C1_forwarded_clamped_buffer_as_decoded [OF read_line_A]
  let ?d = "\<lparr>dto_measuredPressure = Fin 200, dto_temperature = Fin 10, dto_cycleIndex = None\<rparr>"
  from th have "\<forall>sid d. PostData sid d \<in> set [PostData ''s1'' ?d] \<longrightarrow>
            in_range 0 200 (dto_measuredPressure d) \<and> in_range 0 80 (dto_temperature d)
            \<and> (\<exists>line reading v w.
                  Resolved (Some line_A, False) = Resolved (Some line, False)
                  \<and> parseLine sample_JSON_parse sample_prim ''T'' line = Some reading
                  \<and> measuredPressure reading = Fin v \<and> temperature reading = Fin w
                  \<and> dto_measuredPressure d = Fin (max 0 (min 200 v))
                  \<and> dto_temperature d = Fin (max 0 (min 80 w))
                  \<and> dto_cycleIndex d = cycleIndex reading)"
    by (rule conjunct1)
  from this [rule_format, of "''s1''" ?d]
  have a: "in_range 0 200 (Fin 200) \<and> in_range 0 80 (Fin 10)
     \<and> (\<exists>line reading v w.
         Resolved (Some line_A, False) = Resolved (Some line, False)
         \<and> parseLine sample_JSON_parse sample_prim ''T'' line = Some reading
         \<and> measuredPressure reading = Fin v \<and> temperature reading = Fin w
         \<and> Fin 200 = Fin (max 0 (min 200 v)) \<and> Fin 10 = Fin (max 0 (min 80 w)))"
    by auto
  from th have "\<forall>line reading. Resolved (Some line_A, False) = Resolved (Some line, False)
       \<and> line \<noteq> [] \<and> parseLine sample_JSON_parse sample_prim ''T'' line = Some reading \<longrightarrow>
       realtime (connected_state\<lparr>isMonitoring := True, startedFromDevice := True,
        realtime := [row_A], lastSentRef := 5000\<rparr>) = slice_last 200 (realtime connected_state @ [reading])"
    by blast
  from this [rule_format, of line_A row_A] parse_line_A line_A_nonempty
  have b: "realtime (connected_state\<lparr>isMonitoring := True, startedFromDevice := True,
        realtime := [row_A], lastSentRef := 5000\<rparr>) = slice_last 200 (realtime connected_state @ [row_A])"
    by blast
  have session: "cl_session sample_closure = Some sample_session"
    by (simp add: sample_closure_def)
  have due: "1000 \<le> 5000 - lastSentRef connected_state"
    by (simp add: connected_state_eq ready_state_def initial_state_def)
  from th have "\<forall>line reading s. Resolved (Some line_A, False) = Resolved (Some line, False)
       \<and> line \<noteq> [] \<and> parseLine sample_JSON_parse sample_prim ''T'' line = Some reading
       \<and> cl_session sample_closure = Some s \<and> 1000 \<le> 5000 - lastSentRef connected_state \<longrightarrow>
       (\<exists>d. [PostData ''s1'' ?d] = [PostData (session_id s) d])"
    by blast
  from this [rule_format, of line_A row_A sample_session] parse_line_A line_A_nonempty session due
  have c: "\<exists>d. [PostData ''s1'' ?d] = [PostData (session_id sample_session) d]"
    by blast
  from a b c show ?thesis by blast
qed

subsection \<open>The sample runs evaluated\<close>

lemma handleStart_connected_state:
  "handleStart True connected_state =
     (connected_state\<lparr>err := None, startedFromDevice := False, isMonitoring := True\<rparr>,
      [WriteLine ''I''])"
  by (simp add: handleStart_def connected_state_eq ready_state_def initial_state_def)

lemma disconnected_while_monitoring_eq:
  "disconnected_while_monitoring =
     ready_state\<lparr>err := None, io := None, closeLoopRef := True, isMonitoring := True\<rparr>"
  by (simp add: disconnected_while_monitoring_def handleStart_def handleDisconnect_def
      connected_state_eq ready_state_def initial_state_def)

lemma reconnected_eq:
  "reconnected =
     (ready_state\<lparr>err := None, io := Some 8, closeLoopRef := False, isMonitoring := True\<rparr>,
      Some \<lparr>cl_session = Some sample_session, cl_isMonitoring = True\<rparr>)"
  by (simp add: reconnected_def disconnected_while_monitoring_eq handleConnect_def
      ready_state_def initial_state_def)

lemma stopped_after_reconnect_eq:
  "stopped_after_reconnect =
     ready_state\<lparr>err := None, io := Some 8, closeLoopRef := False, isMonitoring := False\<rparr>"
  by (simp add: stopped_after_reconnect_def reconnected_eq handleStop_def
      ready_state_def initial_state_def)

lemma device_started_state_eq:
  "device_started_state =
     connected_state\<lparr>isMonitoring := True, startedFromDevice := True, realtime := [row_A],
       lastSentRef := 5000\<rparr>"
  by (simp add: device_started_state_def readLoop_turn_def read_line_A readLoop_settled_def)

subsection \<open>Monitoring and the connection\<close>

text \<open>
  C2, as stated, after connect, start, disconnect: \<^verbatim>\<open>handleDisconnect\<close> closes the connection
  and leaves the monitoring flag set, so the state has monitoring true and no connection.
\<close>

theorem C2_disconnect_counterexample:
  "\<not> monitoring_needs_connection (handleDisconnect (fst (handleStart True connected_state)))"
  by (simp add: monitoring_needs_connection_def handleStart_def handleDisconnect_def
      connected_state_eq ready_state_def initial_state_def)

text \<open>
  C2, amended: from a state where monitoring implies an open connection, each of
  \<^verbatim>\<open>handleCreateSession\<close>, \<^verbatim>\<open>handleConnect\<close>, \<^verbatim>\<open>handleStart\<close>, \<^verbatim>\<open>handleStop\<close> and \<^verbatim>\<open>handleReset\<close> leads to
  such a state again, and so does a step of the read loop taken while the connection is
  open; \<^verbatim>\<open>handleDisconnect\<close> leaves the monitoring flag as it is and the connection closed.
\<close>

theorem C2_invariant_kept_except_by_disconnect:
  assumes "monitoring_needs_connection st"
  shows "monitoring_needs_connection (fst (handleCreateSession created st))
     \<and> monitoring_needs_connection (fst (handleConnect opened st))
     \<and> monitoring_needs_connection (fst (handleStart written st))
     \<and> monitoring_needs_connection (fst (handleStop written st))
     \<and> monitoring_needs_connection (handleReset st)
     \<and> (io st \<noteq> None \<longrightarrow>
          monitoring_needs_connection (fst (readLoop_read JSON_parse prim cl rd ts now st)))
     \<and> monitoring_needs_connection (fst (readLoop_settled uploaded st))
     \<and> isMonitoring (handleDisconnect st) = isMonitoring st
     \<and> io (handleDisconnect st) = None"
proof -
  have create: "monitoring_needs_connection (fst (handleCreateSession created st))"
    using assms
    by (auto simp: monitoring_needs_connection_def handleCreateSession_def Let_def
        split: settled.splits)
  have connect: "monitoring_needs_connection (fst (handleConnect opened st))"
    using assms
    by (auto simp: monitoring_needs_connection_def handleConnect_def split: settled.splits)
  have start: "monitoring_needs_connection (fst (handleStart written st))"
    using assms by (auto simp: monitoring_needs_connection_def handleStart_def Let_def)
  have stop: "monitoring_needs_connection (fst (handleStop written st))"
    using assms by (auto simp: monitoring_needs_connection_def handleStop_def Let_def)
  have reset: "monitoring_needs_connection (handleReset st)"
    using assms
    by (auto simp: monitoring_needs_connection_def handleReset_def handleDisconnect_def)
  have read: "io st \<noteq> None \<longrightarrow>
      monitoring_needs_connection (fst (readLoop_read JSON_parse prim cl rd ts now st))"
    using assms
    by (auto simp: monitoring_needs_connection_def readLoop_read_def Let_def
        split: settled.splits option.splits if_splits)
  have settled: "monitoring_needs_connection (fst (readLoop_settled uploaded st))"
    using assms
    by (auto simp: monitoring_needs_connection_def readLoop_settled_def split: settled.splits)
  have disconnect: "isMonitoring (handleDisconnect st) = isMonitoring st
      \<and> io (handleDisconnect st) = None"
    by (simp add: handleDisconnect_def)
  from create connect start stop reset read settled disconnect show ?thesis
    by blast
qed

theorem C2_invariant_witness:
  "monitoring_needs_connection connected_state
   \<and> monitoring_needs_connection (fst (handleStart True connected_state))
   \<and> monitoring_needs_connection (fst (handleStop True connected_state))
   \<and> monitoring_needs_connection (handleReset connected_state)
   \<and> monitoring_needs_connection (fst (readLoop_read sample_JSON_parse sample_prim sample_closure
        (Resolved (Some line_A, False)) ''T'' 5000 connected_state))
   \<and> io (handleDisconnect connected_state) = None"
proof -
  have inv: "monitoring_needs_connection connected_state"
    by (simp add: monitoring_needs_connection_def connected_state_eq ready_state_def
        initial_state_def)
  have open_io: "io connected_state \<noteq> None"
    by (simp add: connected_state_eq)
  from C2_invariant_kept_except_by_disconnect [OF inv, of "Resolved sample_session" "Resolved 7"
      True sample_JSON_parse sample_prim sample_closure "Resolved (Some line_A, False)" "''T''"
      5000 "Resolved ()"] inv open_io
  show ?thesis by blast
qed

subsection \<open>Stopping\<close>

text \<open>
  C3, as stated, after the device has started a cycle by itself: the stop command is
  written, and \<^verbatim>\<open>startedFromDevice\<close> is still set afterwards.
\<close>

theorem C3_startedFromDevice_counterexample:
  "isMonitoring device_started_state \<and> io device_started_state \<noteq> None
   \<and> session device_started_state \<noteq> None
   \<and> snd (handleStop True device_started_state) = [WriteLine ''S'']
   \<and> startedFromDevice (fst (handleStop True device_started_state))"
  by (simp add: device_started_state_eq handleStop_def connected_state_eq ready_state_def
      initial_state_def)

text \<open>
  C3, amended: when a stop is issued (a connection and a session exist and the command
  \<^verbatim>\<open>S\<close> is written), the monitoring flag is false afterwards and \<^verbatim>\<open>startedFromDevice\<close> keeps the
  value it had, however monitoring was entered.
\<close>

theorem C3_stop_clears_monitoring_only:
  assumes "io st \<noteq> None" and "session st \<noteq> None"
  shows "snd (handleStop True st) = [WriteLine ''S'']
     \<and> \<not> isMonitoring (fst (handleStop True st))
     \<and> startedFromDevice (fst (handleStop True st)) = startedFromDevice st"
  using assms by (simp add: handleStop_def)

theorem C3_stop_witness:
  "io device_started_state \<noteq> None \<and> session device_started_state \<noteq> None
   \<and> snd (handleStop True device_started_state) = [WriteLine ''S'']
   \<and> \<not> isMonitoring (fst (handleStop True device_started_state))
   \<and> startedFromDevice (fst (handleStop True device_started_state))
       = startedFromDevice device_started_state"
proof -
  have a: "io device_started_state \<noteq> None"
    by (simp add: device_started_state_eq connected_state_eq)
  have b: "session device_started_state \<noteq> None"
    by (simp add: device_started_state_eq connected_state_eq ready_state_def)
  from C3_stop_clears_monitoring_only [OF a b] a b show ?thesis by blast
qed

subsection \<open>Creating a session\<close>

text \<open>
  C5, as stated, with a session already there: \<^verbatim>\<open>canCreateSession\<close> is false, yet the
  handler calls the backend and replaces the session.
\<close>

theorem C5_session_exists_counterexample:
  "\<not> canCreateSession ready_state
   \<and> snd (handleCreateSession (Resolved other_session) ready_state)
       = [PostSession \<lparr>dto_patientId = ''p1'', dto_targetPressure = Fin 30,
                       dto_holdTimeSeconds = Fin 10\<rparr>]
   \<and> session (fst (handleCreateSession (Resolved other_session) ready_state))
       = Some other_session
   \<and> session ready_state = Some sample_session \<and> other_session \<noteq> sample_session"
  by (simp add: canCreateSession_def handleCreateSession_def ready_state_def initial_state_def
      other_session_def sample_session_def)

text \<open>
  C5, amended: with no patient chosen \<^verbatim>\<open>handleCreateSession\<close> returns at once, with no
  request, no change of state and no error reported; with a patient chosen it sends the
  create request with the patient and the two settings, whatever the other conditions of
  \<^verbatim>\<open>canCreateSession\<close>, stores the session the backend returns, and on a failure keeps the
  session as it was and reports the error.
\<close>

theorem C5_create_guarded_by_patient_only:
  "(patientId st = [] \<longrightarrow> handleCreateSession created st = (st, []))
   \<and> (patientId st \<noteq> [] \<longrightarrow>
        snd (handleCreateSession created st)
          = [PostSession \<lparr>dto_patientId = patientId st, dto_targetPressure = targetPressure st,
                          dto_holdTimeSeconds = holdTimeSeconds st\<rparr>]
        \<and> (\<forall>s. created = Resolved s \<longrightarrow>
               fst (handleCreateSession created st)
                 = st\<lparr>err := None, session := Some s, loading := False\<rparr>)
        \<and> (\<forall>e. created = Rejected e \<longrightarrow>
               session (fst (handleCreateSession created st)) = session st
               \<and> err (fst (handleCreateSession created st)) \<noteq> None))"
  by (auto simp: handleCreateSession_def Let_def split: settled.splits)

theorem C5_create_witness:
  "patientId initial_state = []
   \<and> handleCreateSession (Resolved sample_session) initial_state = (initial_state, [])
   \<and> patientId (initial_state\<lparr>patientId := ''p1''\<rparr>) \<noteq> []
   \<and> snd (handleCreateSession (Resolved sample_session) (initial_state\<lparr>patientId := ''p1''\<rparr>))
       = [PostSession \<lparr>dto_patientId = ''p1'', dto_targetPressure = Fin 30,
                       dto_holdTimeSeconds = Fin 10\<rparr>]
   \<and> fst (handleCreateSession (Resolved sample_session) (initial_state\<lparr>patientId := ''p1''\<rparr>))
       = initial_state\<lparr>patientId := ''p1'', err := None, session := Some sample_session,
           loading := False\<rparr>"
proof -
  have a: "patientId initial_state = []"
    by (simp add: initial_state_def)
  have b: "patientId (initial_state\<lparr>patientId := ''p1''\<rparr>) \<noteq> []"
    by simp
  from C5_create_guarded_by_patient_only [of initial_state "Resolved sample_session"] a
  have c: "handleCreateSession (Resolved sample_session) initial_state = (initial_state, [])"
    by blast
  from C5_create_guarded_by_patient_only
    [of "initial_state\<lparr>patientId := ''p1''\<rparr>" "Resolved sample_session"] b
  have d: "snd (handleCreateSession (Resolved sample_session) (initial_state\<lparr>patientId := ''p1''\<rparr>))
       = [PostSession \<lparr>dto_patientId = patientId (initial_state\<lparr>patientId := ''p1''\<rparr>),
                       dto_targetPressure = targetPressure (initial_state\<lparr>patientId := ''p1''\<rparr>),
                       dto_holdTimeSeconds = holdTimeSeconds (initial_state\<lparr>patientId := ''p1''\<rparr>)\<rparr>]
     \<and> fst (handleCreateSession (Resolved sample_session) (initial_state\<lparr>patientId := ''p1''\<rparr>))
       = initial_state\<lparr>patientId := ''p1'', err := None, session := Some sample_session,
           loading := False\<rparr>"
    by blast
  from a b c d show ?thesis
    by (simp add: initial_state_def)
qed

subsection \<open>A cycle started by the device\<close>

text \<open>
  The loop sets both flags when the values of \<^verbatim>\<open>session\<close> and \<^verbatim>\<open>isMonitoring\<close> it reads, those
  of its closure, are a session and false.
\<close>

lemma readLoop_read_device_start:
  assumes "parseLine JSON_parse prim ts line = Some reading" and "line \<noteq> []"
    and "cl_session cl \<noteq> None" and "\<not> cl_isMonitoring cl"
  shows "isMonitoring (fst (readLoop_read JSON_parse prim cl (Resolved (Some line, False)) ts now st))
     \<and> startedFromDevice (fst (readLoop_read JSON_parse prim cl (Resolved (Some line, False)) ts now st))"
  using assms by (auto simp: readLoop_read_reading Let_def)

text \<open>
  C9 at the run connect, start, disconnect, connect, stop: the loop started by the second
  connect has \<^verbatim>\<open>isMonitoring\<close> bound to true. After the stop the page has a session, an open
  connection and monitoring false; the line decodes; and the step leaves monitoring and
  \<^verbatim>\<open>startedFromDevice\<close> false.
\<close>

theorem C9_stale_flag_after_reconnect:
  "snd reconnected = Some \<lparr>cl_session = Some sample_session, cl_isMonitoring = True\<rparr>
   \<and> \<not> isMonitoring stopped_after_reconnect
   \<and> session stopped_after_reconnect \<noteq> None
   \<and> io stopped_after_reconnect \<noteq> None
   \<and> parseLine sample_JSON_parse sample_prim ''T'' line_A = Some row_A
   \<and> \<not> isMonitoring (fst (readLoop_read sample_JSON_parse sample_prim
          \<lparr>cl_session = Some sample_session, cl_isMonitoring = True\<rparr>
          (Resolved (Some line_A, False)) ''T'' 9000 stopped_after_reconnect))
   \<and> \<not> startedFromDevice (fst (readLoop_read sample_JSON_parse sample_prim
          \<lparr>cl_session = Some sample_session, cl_isMonitoring = True\<rparr>
          (Resolved (Some line_A, False)) ''T'' 9000 stopped_after_reconnect))"
  by (simp add: reconnected_eq stopped_after_reconnect_eq parse_line_A
      readLoop_read_reading [OF parse_line_A line_A_nonempty] ready_state_def initial_state_def
      Let_def)

subsection \<open>The loop over a script of decoded turns\<close>

lemma slice_last_slice_last:
  "slice_last n (slice_last n xs @ ys) = slice_last n (xs @ ys)"
proof (cases "length xs \<le> n")
  case True
  then show ?thesis by (simp add: slice_last_def)
next
  case False
  then have "length xs + length ys - n = (length xs - n) + length ys"
    by simp
  with False show ?thesis
    by (simp add: slice_last_def add.commute)
qed

lemma length_slice_last: "length (slice_last n xs) \<le> n"
  by (simp add: slice_last_def)

lemma slice_last_long:
  "n \<le> length ys \<Longrightarrow> slice_last n (xs @ ys) = drop (length ys - n) ys"
  by (simp add: slice_last_def)

lemma decoded_cases:
  assumes "decoded JSON_parse prim t = Some r"
  obtains line ts now uploaded where "t = (Resolved (Some line, False), ts, now, uploaded)"
    and "line \<noteq> []" and "parseLine JSON_parse prim ts line = Some r"
  using assms
  by (auto simp: decoded_def split: prod.splits settled.splits option.splits bool.splits if_splits)

lemma readLoop_turn_decoded:
  assumes "decoded JSON_parse prim t = Some r" and "\<not> closeLoopRef st"
  shows "fst (snd (readLoop_turn JSON_parse prim cl t st)) = AwaitRead"
    and "realtime (fst (readLoop_turn JSON_parse prim cl t st)) = slice_last 200 (realtime st @ [r])"
    and "\<not> closeLoopRef (fst (readLoop_turn JSON_parse prim cl t st))"
proof -
  from assms(1) obtain line ts now uploaded where
    t: "t = (Resolved (Some line, False), ts, now, uploaded)"
    and line: "line \<noteq> []" and parse: "parseLine JSON_parse prim ts line = Some r"
    by (rule decoded_cases)
  show "fst (snd (readLoop_turn JSON_parse prim cl t st)) = AwaitRead"
    using assms(2)
    by (auto simp: t readLoop_turn_def readLoop_read_reading [OF parse line] Let_def
        readLoop_settled_def loop_head_def split: option.splits settled.splits)
  show "realtime (fst (readLoop_turn JSON_parse prim cl t st)) = slice_last 200 (realtime st @ [r])"
    by (auto simp: t readLoop_turn_def readLoop_read_reading [OF parse line] Let_def
        readLoop_settled_def loop_head_def split: option.splits settled.splits)
  show "\<not> closeLoopRef (fst (readLoop_turn JSON_parse prim cl t st))"
    using assms(2)
    by (auto simp: t readLoop_turn_def readLoop_read_reading [OF parse line] Let_def
        readLoop_settled_def loop_head_def split: option.splits settled.splits)
qed

lemma readLoop_turn_due:
  assumes "decoded JSON_parse prim t = Some r" and "cl_session cl = Some s"
    and "1000 \<le> turn_now t - lastSentRef st"
  shows "lastSentRef (fst (readLoop_turn JSON_parse prim cl t st)) = turn_now t"
    and "snd (snd (readLoop_turn JSON_parse prim cl t st)) =
      [PostData (session_id s)
         \<lparr>dto_measuredPressure = clamp (measuredPressure r) (Fin 0) (Fin 200),
          dto_temperature = clamp (temperature r) (Fin 0) (Fin 80),
          dto_cycleIndex = cycleIndex r\<rparr>]"
proof -
  from assms(1) obtain line ts now uploaded where
    t: "t = (Resolved (Some line, False), ts, now, uploaded)"
    and line: "line \<noteq> []" and parse: "parseLine JSON_parse prim ts line = Some r"
    by (rule decoded_cases)
  show "lastSentRef (fst (readLoop_turn JSON_parse prim cl t st)) = turn_now t"
    using assms(2,3)
    by (auto simp: t readLoop_turn_def readLoop_read_reading [OF parse line] Let_def
        readLoop_settled_def turn_now_def split: settled.splits)
  show "snd (snd (readLoop_turn JSON_parse prim cl t st)) =
      [PostData (session_id s)
         \<lparr>dto_measuredPressure = clamp (measuredPressure r) (Fin 0) (Fin 200),
          dto_temperature = clamp (temperature r) (Fin 0) (Fin 80),
          dto_cycleIndex = cycleIndex r\<rparr>]"
    using assms(2,3)
    by (auto simp: t readLoop_turn_def readLoop_read_reading [OF parse line] Let_def
        readLoop_settled_def turn_now_def split: settled.splits)
qed

lemma readLoop_turn_not_due:
  assumes "decoded JSON_parse prim t = Some r"
    and "\<not> 1000 \<le> turn_now t - lastSentRef st"
  shows "lastSentRef (fst (readLoop_turn JSON_parse prim cl t st)) = lastSentRef st"
    and "snd (snd (readLoop_turn JSON_parse prim cl t st)) = []"
proof -
  from assms(1) obtain line ts now uploaded where
    t: "t = (Resolved (Some line, False), ts, now, uploaded)"
    and line: "line \<noteq> []" and parse: "parseLine JSON_parse prim ts line = Some r"
    by (rule decoded_cases)
  show "lastSentRef (fst (readLoop_turn JSON_parse prim cl t st)) = lastSentRef st"
    using assms(2)
    by (auto simp: t readLoop_turn_def readLoop_read_reading [OF parse line] Let_def
        readLoop_settled_def turn_now_def loop_head_def split: settled.splits option.splits)
  show "snd (snd (readLoop_turn JSON_parse prim cl t st)) = []"
    using assms(2)
    by (auto simp: t readLoop_turn_def readLoop_read_reading [OF parse line] Let_def
        readLoop_settled_def turn_now_def loop_head_def split: settled.splits option.splits)
qed

text \<open>The loop unfolded by one decoded turn.\<close>

lemma readLoop_Cons_decoded:
  assumes "decoded JSON_parse prim t = Some r" and "\<not> closeLoopRef st"
  shows "fst (readLoop JSON_parse prim cl (t # rest) st) =
      fst (readLoop JSON_parse prim cl rest (fst (readLoop_turn JSON_parse prim cl t st)))"
    and "fst (snd (readLoop JSON_parse prim cl (t # rest) st)) =
      fst (snd (readLoop JSON_parse prim cl rest (fst (readLoop_turn JSON_parse prim cl t st))))"
    and "snd (snd (readLoop JSON_parse prim cl (t # rest) st)) =
      map (Pair (turn_now t)) (snd (snd (readLoop_turn JSON_parse prim cl t st)))
      @ snd (snd (readLoop JSON_parse prim cl rest (fst (readLoop_turn JSON_parse prim cl t st))))"
proof -
  obtain st1 p es where turn: "readLoop_turn JSON_parse prim cl t st = (st1, p, es)"
    by (cases "readLoop_turn JSON_parse prim cl t st") auto
  with readLoop_turn_decoded(1) [OF assms, of cl] have p: "p = AwaitRead"
    by simp
  obtain st2 q reqs where run: "readLoop JSON_parse prim cl rest st1 = (st2, q, reqs)"
    by (cases "readLoop JSON_parse prim cl rest st1") auto
  from turn p run
  show "fst (readLoop JSON_parse prim cl (t # rest) st) =
      fst (readLoop JSON_parse prim cl rest (fst (readLoop_turn JSON_parse prim cl t st)))"
    and "fst (snd (readLoop JSON_parse prim cl (t # rest) st)) =
      fst (snd (readLoop JSON_parse prim cl rest (fst (readLoop_turn JSON_parse prim cl t st))))"
    and "snd (snd (readLoop JSON_parse prim cl (t # rest) st)) =
      map (Pair (turn_now t)) (snd (snd (readLoop_turn JSON_parse prim cl t st)))
      @ snd (snd (readLoop JSON_parse prim cl rest (fst (readLoop_turn JSON_parse prim cl t st))))"
    by (simp_all add: turn_now_def)
qed

lemma readLoop_realtime:
  assumes "map (decoded JSON_parse prim) script = map Some rows" and "\<not> closeLoopRef st"
    and "length (realtime st) \<le> 200"
  shows "realtime (fst (readLoop JSON_parse prim cl script st)) = slice_last 200 (realtime st @ rows)"
  using assms
proof (induction script arbitrary: st rows)
  case Nil
  then show ?case by (simp add: slice_last_def)
next
  case (Cons t rest)
  from Cons.prems(1) obtain r rows' where rows: "rows = r # rows'"
    and r: "decoded JSON_parse prim t = Some r"
    and rest: "map (decoded JSON_parse prim) rest = map Some rows'"
    by (cases rows) auto
  let ?st1 = "fst (readLoop_turn JSON_parse prim cl t st)"
  have open_loop: "\<not> closeLoopRef ?st1"
    by (rule readLoop_turn_decoded(3) [OF r Cons.prems(2)])
  have st1: "realtime ?st1 = slice_last 200 (realtime st @ [r])"
    by (rule readLoop_turn_decoded(2) [OF r Cons.prems(2)])
  have short: "length (realtime ?st1) \<le> 200"
    unfolding st1 by (rule length_slice_last)
  have "realtime (fst (readLoop JSON_parse prim cl (t # rest) st))
      = realtime (fst (readLoop JSON_parse prim cl rest ?st1))"
    by (simp add: readLoop_Cons_decoded [OF r Cons.prems(2)] del: readLoop.simps)
  also have "\<dots> = slice_last 200 (realtime ?st1 @ rows')"
    by (rule Cons.IH [OF rest open_loop short])
  also have "\<dots> = slice_last 200 (slice_last 200 (realtime st @ [r]) @ rows')"
    by (simp add: st1)
  also have "\<dots> = slice_last 200 (realtime st @ rows)"
    by (simp add: slice_last_slice_last rows)
  finally show ?case .
qed

lemma readLoop_requests:
  assumes "map (decoded JSON_parse prim) script = map Some rows" and "\<not> closeLoopRef st"
    and "cl_session cl = Some s"
  shows "spaced (lastSentRef st) (map fst (snd (snd (readLoop JSON_parse prim cl script st))))"
  using assms(1,2)
proof (induction script arbitrary: st rows)
  case Nil
  then show ?case by simp
next
  case (Cons t rest)
  from Cons.prems(1) obtain r rows' where rows: "rows = r # rows'"
    and r: "decoded JSON_parse prim t = Some r"
    and rest: "map (decoded JSON_parse prim) rest = map Some rows'"
    by (cases rows) auto
  let ?st1 = "fst (readLoop_turn JSON_parse prim cl t st)"
  have open_loop: "\<not> closeLoopRef ?st1"
    by (rule readLoop_turn_decoded(3) [OF r Cons.prems(2)])
  note IH = Cons.IH [OF rest open_loop]
  show ?case
  proof (cases "1000 \<le> turn_now t - lastSentRef st")
    case True
    from readLoop_turn_due [OF r assms(3) True] IH True show ?thesis
      by (simp add: readLoop_Cons_decoded [OF r Cons.prems(2)] del: readLoop.simps)
  next
    case False
    from readLoop_turn_not_due [OF r False, of cl] IH show ?thesis
      by (simp add: readLoop_Cons_decoded [OF r Cons.prems(2)] del: readLoop.simps)
  qed
qed

lemma spaced_lower: "spaced prev ts \<Longrightarrow> t \<in> set ts \<Longrightarrow> prev + 1000 \<le> t"
proof (induction ts arbitrary: prev)
  case Nil
  then show ?case by simp
next
  case (Cons a ts)
  then show ?case by fastforce
qed

lemma spaced_window:
  "spaced prev ts \<Longrightarrow> length (filter (\<lambda>t. w \<le> t \<and> t < w + 1000) ts) \<le> 1"
proof (induction ts arbitrary: prev)
  case Nil
  then show ?case by simp
next
  case (Cons a ts)
  show ?case
  proof (cases "w \<le> a \<and> a < w + 1000")
    case True
    have "filter (\<lambda>t. w \<le> t \<and> t < w + 1000) ts = []"
    proof (rule filter_False, rule ballI)
      fix t assume "t \<in> set ts"
      with Cons.prems spaced_lower [of a ts t] have "a + 1000 \<le> t"
        by simp
      with True show "\<not> (w \<le> t \<and> t < w + 1000)" by simp
    qed
    with True show ?thesis by simp
  next
    case False
    from Cons.prems have "spaced a ts" by simp
    from Cons.IH [OF this] False show ?thesis by auto
  qed
qed

lemma readLoop_all_due:
  assumes "map (decoded JSON_parse prim) script = map Some rows" and "\<not> closeLoopRef st"
    and "cl_session cl = Some s" and "spaced (lastSentRef st) (map turn_now script)"
  shows "map fst (snd (snd (readLoop JSON_parse prim cl script st))) = map turn_now script"
  using assms(1,2,4)
proof (induction script arbitrary: st rows)
  case Nil
  then show ?case by simp
next
  case (Cons t rest)
  from Cons.prems(1) obtain r rows' where rows: "rows = r # rows'"
    and r: "decoded JSON_parse prim t = Some r"
    and rest: "map (decoded JSON_parse prim) rest = map Some rows'"
    by (cases rows) auto
  let ?st1 = "fst (readLoop_turn JSON_parse prim cl t st)"
  from Cons.prems(3) have due: "1000 \<le> turn_now t - lastSentRef st"
    and later: "spaced (turn_now t) (map turn_now rest)"
    by simp_all
  have open_loop: "\<not> closeLoopRef ?st1"
    by (rule readLoop_turn_decoded(3) [OF r Cons.prems(2)])
  from later readLoop_turn_due(1) [OF r assms(3) due]
  have "spaced (lastSentRef ?st1) (map turn_now rest)"
    by simp
  note IH = Cons.IH [OF rest open_loop this]
  from readLoop_turn_due(2) [OF r assms(3) due] IH show ?case
    by (simp add: readLoop_Cons_decoded [OF r Cons.prems(2)] del: readLoop.simps)
qed

lemma readLoop_read_length:
  assumes "length (realtime st) \<le> 200"
  shows "length (realtime (fst (readLoop_read JSON_parse prim cl rd ts now st))) \<le> 200"
  using assms
  by (auto simp: readLoop_read_def Let_def length_slice_last
      split: settled.splits option.splits if_splits)

lemma decoded_turn_A: "decoded sample_JSON_parse sample_prim (turn_A now) = Some row_A"
  by (simp add: decoded_def turn_A_def parse_line_A line_A_nonempty)

lemma connected_state_loop:
  "\<not> closeLoopRef connected_state" "realtime connected_state = []"
  "lastSentRef connected_state = 0"
  by (simp_all add: connected_state_eq ready_state_def initial_state_def)

subsection \<open>The buffer\<close>

text \<open>
  C8: when every turn of a script brings a line that decodes, the loop is not closed and
  the buffer starts with at most 200 rows, the buffer after the script is the last 200 of
  the old rows followed by the new ones in arrival order; it never has more than 200 rows,
  after a whole script or after any single step; and once 200 or more rows have arrived it
  has exactly 200, the last 200 that arrived.
\<close>

theorem C8_buffer_keeps_last_200:
  assumes "map (decoded JSON_parse prim) script = map Some rows" and "\<not> closeLoopRef st"
    and "length (realtime st) \<le> 200"
  shows "realtime (fst (readLoop JSON_parse prim cl script st)) = slice_last 200 (realtime st @ rows)
     \<and> length (realtime (fst (readLoop JSON_parse prim cl script st))) \<le> 200
     \<and> length (realtime (fst (readLoop_read JSON_parse prim cl rd ts now st))) \<le> 200
     \<and> (200 \<le> length rows \<longrightarrow>
          realtime (fst (readLoop JSON_parse prim cl script st)) = drop (length rows - 200) rows
          \<and> length (realtime (fst (readLoop JSON_parse prim cl script st))) = 200)"
proof -
  have eq: "realtime (fst (readLoop JSON_parse prim cl script st))
      = slice_last 200 (realtime st @ rows)"
    by (rule readLoop_realtime [OF assms])
  have len: "length (realtime (fst (readLoop JSON_parse prim cl script st))) \<le> 200"
    unfolding eq by (rule length_slice_last)
  have step: "length (realtime (fst (readLoop_read JSON_parse prim cl rd ts now st))) \<le> 200"
    by (rule readLoop_read_length [OF assms(3)])
  have long: "200 \<le> length rows \<longrightarrow>
      realtime (fst (readLoop JSON_parse prim cl script st)) = drop (length rows - 200) rows
      \<and> length (realtime (fst (readLoop JSON_parse prim cl script st))) = 200"
    unfolding eq by (simp add: slice_last_long)
  from eq len step long show ?thesis by blast
qed

theorem C8_buffer_witness:
  "realtime (fst (readLoop sample_JSON_parse sample_prim sample_closure
      (replicate 300 (turn_A 5000)) connected_state)) = replicate 200 row_A
   \<and> length (realtime (fst (readLoop sample_JSON_parse sample_prim sample_closure
      (replicate 300 (turn_A 5000)) connected_state))) = 200"
proof -
  have script: "map (decoded sample_JSON_parse sample_prim) (replicate 300 (turn_A 5000))
      = map Some (replicate 300 row_A)"
    by (simp add: decoded_turn_A)
  have short: "length (realtime connected_state) \<le> 200"
    by (simp add: connected_state_loop)
  have long: "200 \<le> length (replicate 300 row_A)"
    by simp
  from C8_buffer_keeps_last_200 [OF script connected_state_loop(1) short, of sample_closure] long
  have "realtime (fst (readLoop sample_JSON_parse sample_prim sample_closure
      (replicate 300 (turn_A 5000)) connected_state))
        = drop (length (replicate 300 row_A) - 200) (replicate 300 row_A)
     \<and> length (realtime (fst (readLoop sample_JSON_parse sample_prim sample_closure
      (replicate 300 (turn_A 5000)) connected_state))) = 200"
    by blast
  then show ?thesis by simp
qed

subsection \<open>The throttle\<close>

lemma readLoop_turn_request:
  assumes "decoded JSON_parse prim t = Some r" and "cl_session cl = Some s"
  shows "snd (snd (readLoop_turn JSON_parse prim cl t st))
     = (if 1000 \<le> turn_now t - lastSentRef st then [request_for s r] else [])"
proof (cases "1000 \<le> turn_now t - lastSentRef st")
  case True
  with readLoop_turn_due(2) [OF assms True] show ?thesis
    by (simp add: request_for_def)
next
  case False
  with readLoop_turn_not_due(2) [OF assms(1) False, of cl] show ?thesis
    by simp
qed

lemma readLoop_requests_from_turns:
  assumes "map (decoded JSON_parse prim) script = map Some rows" and "\<not> closeLoopRef st"
    and "cl_session cl = Some s"
    and "(n, e) \<in> set (snd (snd (readLoop JSON_parse prim cl script st)))"
  shows "\<exists>t r. t \<in> set script \<and> decoded JSON_parse prim t = Some r
     \<and> n = turn_now t \<and> e = request_for s r"
  using assms(1,2,4)
proof (induction script arbitrary: st rows)
  case Nil
  then show ?case by simp
next
  case (Cons t rest)
  from Cons.prems(1) obtain r rows' where rows: "rows = r # rows'"
    and r: "decoded JSON_parse prim t = Some r"
    and rest: "map (decoded JSON_parse prim) rest = map Some rows'"
    by (cases rows) auto
  let ?st1 = "fst (readLoop_turn JSON_parse prim cl t st)"
  have open_loop: "\<not> closeLoopRef ?st1"
    by (rule readLoop_turn_decoded(3) [OF r Cons.prems(2)])
  from Cons.prems(3)
  have "(n, e) \<in> set (map (Pair (turn_now t)) (snd (snd (readLoop_turn JSON_parse prim cl t st))))
      \<or> (n, e) \<in> set (snd (snd (readLoop JSON_parse prim cl rest ?st1)))"
    by (simp add: readLoop_Cons_decoded(3) [OF r Cons.prems(2)] del: readLoop.simps)
  then show ?case
  proof
    assume "(n, e) \<in> set (map (Pair (turn_now t))
        (snd (snd (readLoop_turn JSON_parse prim cl t st))))"
    then have "n = turn_now t \<and> e = request_for s r"
      by (auto simp: readLoop_turn_request [OF r assms(3)] split: if_splits)
    with r show ?thesis
      by (intro exI [of _ t] exI [of _ r]) simp
  next
    assume "(n, e) \<in> set (snd (snd (readLoop JSON_parse prim cl rest ?st1)))"
    from Cons.IH [OF rest open_loop this] obtain t' r' where
      "t' \<in> set rest" "decoded JSON_parse prim t' = Some r'"
      "n = turn_now t'" "e = request_for s r'"
      by blast
    then show ?thesis
      by (intro exI [of _ t'] exI [of _ r']) simp
  qed
qed

lemma readLoop_all_due_requests:
  assumes "map (decoded JSON_parse prim) script = map Some rows" and "\<not> closeLoopRef st"
    and "cl_session cl = Some s" and "spaced (lastSentRef st) (map turn_now script)"
  shows "snd (snd (readLoop JSON_parse prim cl script st))
     = map2 (\<lambda>t r. (turn_now t, request_for s r)) script rows"
  using assms(1,2,4)
proof (induction script arbitrary: st rows)
  case Nil
  then show ?case by simp
next
  case (Cons t rest)
  from Cons.prems(1) obtain r rows' where rows: "rows = r # rows'"
    and r: "decoded JSON_parse prim t = Some r"
    and rest: "map (decoded JSON_parse prim) rest = map Some rows'"
    by (cases rows) auto
  let ?st1 = "fst (readLoop_turn JSON_parse prim cl t st)"
  from Cons.prems(3) have due: "1000 \<le> turn_now t - lastSentRef st"
    and later: "spaced (turn_now t) (map turn_now rest)"
    by simp_all
  have open_loop: "\<not> closeLoopRef ?st1"
    by (rule readLoop_turn_decoded(3) [OF r Cons.prems(2)])
  from later readLoop_turn_due(1) [OF r assms(3) due]
  have "spaced (lastSentRef ?st1) (map turn_now rest)"
    by simp
  note IH = Cons.IH [OF rest open_loop this]
  from readLoop_turn_request [OF r assms(3), of st] due IH show ?case
    by (simp add: readLoop_Cons_decoded(3) [OF r Cons.prems(2)] rows del: readLoop.simps)
qed

lemma request_for_row_A:
  "request_for sample_session row_A
     = PostData ''s1'' \<lparr>dto_measuredPressure = Fin 200, dto_temperature = Fin 10,
                         dto_cycleIndex = None\<rparr>"
  by (simp add: request_for_def sample_session_def row_A_def clamp_def)

text \<open>
  C7: in a loop that has a session, a decoded reading leads to a request exactly when
  \<^verbatim>\<open>now - lastSentRef.current >= 1000\<close>, and the request is then the one \<^verbatim>\<open>addData\<close> call for
  that reading in that session, no request otherwise; when it is made, \<^verbatim>\<open>lastSentRef\<close> already
  holds \<^verbatim>\<open>now\<close> at the point where the loop is suspended on the call; over a script of
  decoded turns every request made is the \<^verbatim>\<open>addData\<close> call for the reading of one of the
  turns, at the clock of that turn, and at most one request falls in any window of
  1000 ms; and when the turns are 1000 ms or more apart, the requests are exactly the
  \<^verbatim>\<open>addData\<close> calls for all the readings, one per turn, in order.
\<close>

theorem C7_one_upload_per_second:
  assumes "map (decoded JSON_parse prim) script = map Some rows" and "\<not> closeLoopRef st"
    and "cl_session cl = Some s"
  shows "(\<forall>t r. decoded JSON_parse prim t = Some r \<longrightarrow>
            (snd (snd (readLoop_turn JSON_parse prim cl t st)) \<noteq> [])
              = (1000 \<le> turn_now t - lastSentRef st))
     \<and> (\<forall>line ts now reading.
            line \<noteq> [] \<and> parseLine JSON_parse prim ts line = Some reading
            \<and> 1000 \<le> now - lastSentRef st \<longrightarrow>
            fst (snd (readLoop_read JSON_parse prim cl (Resolved (Some line, False)) ts now st))
              = AwaitAddData
            \<and> lastSentRef
                (fst (readLoop_read JSON_parse prim cl (Resolved (Some line, False)) ts now st))
              = now)
     \<and> (\<forall>w. length (filter (\<lambda>t. w \<le> t \<and> t < w + 1000)
                (map fst (snd (snd (readLoop JSON_parse prim cl script st))))) \<le> 1)
     \<and> (spaced (lastSentRef st) (map turn_now script) \<longrightarrow>
          map fst (snd (snd (readLoop JSON_parse prim cl script st))) = map turn_now script)
     \<and> (\<forall>t r. decoded JSON_parse prim t = Some r \<longrightarrow>
            snd (snd (readLoop_turn JSON_parse prim cl t st))
              = (if 1000 \<le> turn_now t - lastSentRef st then [request_for s r] else []))
     \<and> (\<forall>line ts now reading.
            line \<noteq> [] \<and> parseLine JSON_parse prim ts line = Some reading \<longrightarrow>
            snd (snd (readLoop_read JSON_parse prim cl (Resolved (Some line, False)) ts now st))
              = (if 1000 \<le> now - lastSentRef st then [request_for s reading] else []))
     \<and> (\<forall>n e. (n, e) \<in> set (snd (snd (readLoop JSON_parse prim cl script st))) \<longrightarrow>
            (\<exists>t r. t \<in> set script \<and> decoded JSON_parse prim t = Some r
               \<and> n = turn_now t \<and> e = request_for s r))
     \<and> (spaced (lastSentRef st) (map turn_now script) \<longrightarrow>
          snd (snd (readLoop JSON_parse prim cl script st))
            = map2 (\<lambda>t r. (turn_now t, request_for s r)) script rows)"
proof -
  have single: "\<forall>t r. decoded JSON_parse prim t = Some r \<longrightarrow>
      snd (snd (readLoop_turn JSON_parse prim cl t st))
        = (if 1000 \<le> turn_now t - lastSentRef st then [request_for s r] else [])"
    using readLoop_turn_request [OF _ assms(3)] by blast
  have iff: "\<forall>t r. decoded JSON_parse prim t = Some r \<longrightarrow>
      (snd (snd (readLoop_turn JSON_parse prim cl t st)) \<noteq> [])
        = (1000 \<le> turn_now t - lastSentRef st)"
  proof (intro allI impI)
    fix t r
    assume "decoded JSON_parse prim t = Some r"
    from readLoop_turn_request [OF this assms(3), of st]
    show "(snd (snd (readLoop_turn JSON_parse prim cl t st)) \<noteq> [])
        = (1000 \<le> turn_now t - lastSentRef st)"
      by simp
  qed
  have before: "\<forall>line ts now reading.
      line \<noteq> [] \<and> parseLine JSON_parse prim ts line = Some reading
      \<and> 1000 \<le> now - lastSentRef st \<longrightarrow>
      fst (snd (readLoop_read JSON_parse prim cl (Resolved (Some line, False)) ts now st))
        = AwaitAddData
      \<and> lastSentRef
          (fst (readLoop_read JSON_parse prim cl (Resolved (Some line, False)) ts now st))
        = now"
    using assms(3) by (auto simp: readLoop_read_reading Let_def)
  have step: "\<forall>line ts now reading.
      line \<noteq> [] \<and> parseLine JSON_parse prim ts line = Some reading \<longrightarrow>
      snd (snd (readLoop_read JSON_parse prim cl (Resolved (Some line, False)) ts now st))
        = (if 1000 \<le> now - lastSentRef st then [request_for s reading] else [])"
    using assms(3) by (auto simp: readLoop_read_reading Let_def request_for_def)
  have window: "\<forall>w. length (filter (\<lambda>t. w \<le> t \<and> t < w + 1000)
      (map fst (snd (snd (readLoop JSON_parse prim cl script st))))) \<le> 1"
    using spaced_window [OF readLoop_requests [OF assms]] by blast
  have every: "spaced (lastSentRef st) (map turn_now script) \<longrightarrow>
      map fst (snd (snd (readLoop JSON_parse prim cl script st))) = map turn_now script"
    using readLoop_all_due [OF assms] by blast
  have members: "\<forall>n e. (n, e) \<in> set (snd (snd (readLoop JSON_parse prim cl script st))) \<longrightarrow>
      (\<exists>t r. t \<in> set script \<and> decoded JSON_parse prim t = Some r
         \<and> n = turn_now t \<and> e = request_for s r)"
    using readLoop_requests_from_turns [OF assms] by blast
  have exact: "spaced (lastSentRef st) (map turn_now script) \<longrightarrow>
      snd (snd (readLoop JSON_parse prim cl script st))
        = map2 (\<lambda>t r. (turn_now t, request_for s r)) script rows"
    using readLoop_all_due_requests [OF assms] by blast
  from iff before window every single step members exact show ?thesis by blast
qed

theorem C7_throttle_witness:
  "(snd (snd (readLoop_turn sample_JSON_parse sample_prim sample_closure (turn_A 5000)
       connected_state)) \<noteq> []) = (1000 \<le> turn_now (turn_A 5000) - lastSentRef connected_state)
   \<and> lastSentRef (fst (readLoop_read sample_JSON_parse sample_prim sample_closure
        (Resolved (Some line_A, False)) ''T'' 5000 connected_state)) = 5000
   \<and> (\<forall>w. length (filter (\<lambda>t. w \<le> t \<and> t < w + 1000)
        (map fst (snd (snd (readLoop sample_JSON_parse sample_prim sample_closure
           [turn_A 5000, turn_A 5400, turn_A 6000] connected_state))))) \<le> 1)
   \<and> map fst (snd (snd (readLoop sample_JSON_parse sample_prim sample_closure
        [turn_A 5000, turn_A 6000] connected_state))) = [5000, 6000]
   \<and> snd (snd (readLoop sample_JSON_parse sample_prim sample_closure
        [turn_A 5000, turn_A 6000] connected_state))
      = [(5000, PostData ''s1'' \<lparr>dto_measuredPressure = Fin 200, dto_temperature = Fin 10,
                                  dto_cycleIndex = None\<rparr>),
         (6000, PostData ''s1'' \<lparr>dto_measuredPressure = Fin 200, dto_temperature = Fin 10,
                                  dto_cycleIndex = None\<rparr>)]"
proof -
  have session: "cl_session sample_closure = Some sample_session"
    by (simp add: sample_closure_def)
  have three: "map (decoded sample_JSON_parse sample_prim) [turn_A 5000, turn_A 5400, turn_A 6000]
      = map Some [row_A, row_A, row_A]"
    by (simp add: decoded_turn_A)
  have two: "map (decoded sample_JSON_parse sample_prim) [turn_A 5000, turn_A 6000]
      = map Some [row_A, row_A]"
    by (simp add: decoded_turn_A)
  have apart: "spaced (lastSentRef connected_state) (map turn_now [turn_A 5000, turn_A 6000])"
    by (simp add: connected_state_loop turn_now_def turn_A_def)
  have due: "1000 \<le> 5000 - lastSentRef connected_state"
    by (simp add: connected_state_loop)
  note t3 = C7_one_upload_per_second [OF three connected_state_loop(1) session]
  note t2 = C7_one_upload_per_second [OF two connected_state_loop(1) session]
  from t3 decoded_turn_A [of 5000]
  have a: "(snd (snd (readLoop_turn sample_JSON_parse sample_prim sample_closure (turn_A 5000)
       connected_state)) \<noteq> []) = (1000 \<le> turn_now (turn_A 5000) - lastSentRef connected_state)"
    by blast
  from t3 line_A_nonempty parse_line_A due
  have b: "lastSentRef (fst (readLoop_read sample_JSON_parse sample_prim sample_closure
        (Resolved (Some line_A, False)) ''T'' 5000 connected_state)) = 5000"
    by blast
  from t3
  have c: "\<forall>w. length (filter (\<lambda>t. w \<le> t \<and> t < w + 1000)
        (map fst (snd (snd (readLoop sample_JSON_parse sample_prim sample_closure
           [turn_A 5000, turn_A 5400, turn_A 6000] connected_state))))) \<le> 1"
    by blast
  from t2 apart
  have "map fst (snd (snd (readLoop sample_JSON_parse sample_prim sample_closure
        [turn_A 5000, turn_A 6000] connected_state))) = map turn_now [turn_A 5000, turn_A 6000]"
    by blast
  then have d: "map fst (snd (snd (readLoop sample_JSON_parse sample_prim sample_closure
        [turn_A 5000, turn_A 6000] connected_state))) = [5000, 6000]"
    by (simp add: turn_now_def turn_A_def)
  from t2 apart
  have "snd (snd (readLoop sample_JSON_parse sample_prim sample_closure
        [turn_A 5000, turn_A 6000] connected_state))
      = map2 (\<lambda>t r. (turn_now t, request_for sample_session r))
          [turn_A 5000, turn_A 6000] [row_A, row_A]"
    by blast
  then have e: "snd (snd (readLoop sample_JSON_parse sample_prim sample_closure
        [turn_A 5000, turn_A 6000] connected_state))
      = [(5000, PostData ''s1'' \<lparr>dto_measuredPressure = Fin 200, dto_temperature = Fin 10,
                                  dto_cycleIndex = None\<rparr>),
         (6000, PostData ''s1'' \<lparr>dto_measuredPressure = Fin 200, dto_temperature = Fin 10,
                                  dto_cycleIndex = None\<rparr>)]"
    by (simp add: turn_now_def turn_A_def request_for_row_A)
  from a b c d e show ?thesis by blast
qed

subsection \<open>The upload inside the loop\<close>

lemma readLoop_turn_uploaded:
  "readLoop_turn JSON_parse prim cl (set_uploaded u t) st
     = readLoop_turn JSON_parse prim cl (set_uploaded u' t) st"
  by (cases u; cases u')
     (auto simp: readLoop_turn_def set_uploaded_def readLoop_settled_def
        split: prod.splits pc.splits settled.splits)

lemma turn_now_set_uploaded: "turn_now (set_uploaded u t) = turn_now t"
  by (simp add: turn_now_def set_uploaded_def split: prod.splits)

lemma readLoop_uploaded:
  "readLoop JSON_parse prim cl (map (set_uploaded u) script) st
     = readLoop JSON_parse prim cl (map (set_uploaded u') script) st"
proof (induction script arbitrary: st)
  case Nil
  show ?case by simp
next
  case (Cons t rest)
  have now: "fst (snd (snd (set_uploaded u t))) = fst (snd (snd (set_uploaded u' t)))"
    using turn_now_set_uploaded [of u t] turn_now_set_uploaded [of u' t]
    by (simp add: turn_now_def)
  show ?case
    by (simp add: readLoop_turn_uploaded [of _ _ _ u t _ u'] now Cons.IH
        split: prod.splits pc.splits)
qed

text \<open>
  C4, as stated, at the first line: the step that makes the request does not go on to the
  next read; the loop is suspended in \<^verbatim>\<open>await sessionService.addData(...)\<close>.
\<close>

theorem C4_loop_awaits_counterexample:
  "snd (readLoop_read sample_JSON_parse sample_prim sample_closure
          (Resolved (Some line_A, False)) ''T'' 5000 connected_state)
   = (AwaitAddData,
      [PostData ''s1'' \<lparr>dto_measuredPressure = Fin 200, dto_temperature = Fin 10,
                        dto_cycleIndex = None\<rparr>])"
  by (simp add: read_line_A)

text \<open>
  C4, amended: a step of the loop makes at most one request, an \<^verbatim>\<open>addData\<close> call; it is
  suspended on \<^verbatim>\<open>addData\<close> exactly when it has made the request, and the iteration then
  reaches the head of the loop, and with it the next read, only when that request has
  settled, with the state the step left, whichever way the request settled; a step that
  makes no request is the whole iteration.
\<close>

theorem C4_next_read_after_upload_settles:
  assumes "readLoop_read JSON_parse prim cl rd ts now st = (st1, p, es)"
  shows "(p = AwaitAddData) = (es \<noteq> [])
     \<and> length es \<le> 1
     \<and> (\<forall>e \<in> set es. \<exists>sid d. e = PostData sid d)
     \<and> (p = AwaitAddData \<longrightarrow>
          readLoop_turn JSON_parse prim cl (rd, ts, now, uploaded) st
            = (st1, loop_head st1, es))
     \<and> (p \<noteq> AwaitAddData \<longrightarrow>
          readLoop_turn JSON_parse prim cl (rd, ts, now, uploaded) st = (st1, p, es))"
proof -
  have a: "(p = AwaitAddData) = (es \<noteq> [])
     \<and> (p = AwaitAddData \<longrightarrow>
          readLoop_turn JSON_parse prim cl (rd, ts, now, uploaded) st
            = (st1, loop_head st1, es))"
    using assms
    by (auto simp: readLoop_turn_def readLoop_settled_def readLoop_read_def Let_def loop_head_def
        split: settled.splits option.splits if_splits prod.splits)
  have b: "p \<noteq> AwaitAddData \<longrightarrow>
      readLoop_turn JSON_parse prim cl (rd, ts, now, uploaded) st = (st1, p, es)"
    using assms by (cases p) (simp_all add: readLoop_turn_def)
  from a b readLoop_read_at_most_one [OF assms] show ?thesis by blast
qed

theorem C4_next_read_witness:
  "readLoop_read sample_JSON_parse sample_prim sample_closure
      (Resolved (Some line_A, False)) ''T'' 5000 connected_state
     = (device_started_state, AwaitAddData,
        [PostData ''s1'' \<lparr>dto_measuredPressure = Fin 200, dto_temperature = Fin 10,
                          dto_cycleIndex = None\<rparr>])
   \<and> readLoop_turn sample_JSON_parse sample_prim sample_closure
        (Resolved (Some line_A, False), ''T'', 5000, Rejected None) connected_state
     = (device_started_state, AwaitRead,
        [PostData ''s1'' \<lparr>dto_measuredPressure = Fin 200, dto_temperature = Fin 10,
                          dto_cycleIndex = None\<rparr>])"
proof -
  have rd: "readLoop_read sample_JSON_parse sample_prim sample_closure
      (Resolved (Some line_A, False)) ''T'' 5000 connected_state
     = (device_started_state, AwaitAddData,
        [PostData ''s1'' \<lparr>dto_measuredPressure = Fin 200, dto_temperature = Fin 10,
                          dto_cycleIndex = None\<rparr>])"
    by (simp add: read_line_A device_started_state_eq)
  have "loop_head device_started_state = AwaitRead"
    by (simp add: loop_head_def device_started_state_eq connected_state_eq)
  with C4_next_read_after_upload_settles [OF rd, of "Rejected None"] rd show ?thesis
    by simp
qed

text \<open>
  C10: when the \<^verbatim>\<open>addData\<close> call is rejected the loop takes up at its head with the state
  unchanged (the buffer, the monitoring flag and \<^verbatim>\<open>err\<close> among it) and makes no further
  request; a turn, and a whole script of turns, in which uploads fail gives the same state,
  the same position of the loop and the same requests as one in which they succeed.
\<close>

theorem C10_upload_failure_discarded:
  "readLoop_settled (Rejected e) st = (st, loop_head st, [])
   \<and> readLoop_turn JSON_parse prim cl (set_uploaded (Rejected e) t) st
       = readLoop_turn JSON_parse prim cl (set_uploaded (Resolved ()) t) st
   \<and> readLoop JSON_parse prim cl (map (set_uploaded (Rejected e)) script) st
       = readLoop JSON_parse prim cl (map (set_uploaded (Resolved ())) script) st"
  using readLoop_turn_uploaded readLoop_uploaded
  by (simp add: readLoop_settled_def)

subsection \<open>The decoder\<close>

lemma coalesce_chain2: "coalesce (obj a) (obj b) = first_value obj [a, b]"
  by (simp add: coalesce_def)

lemma coalesce_chain3:
  "coalesce (first_value obj [a, b]) (obj c) = first_value obj [a, b, c]"
  by (simp add: coalesce_def)

lemma coalesce_chain4:
  "coalesce (first_value obj [a, b, c]) (obj d) = first_value obj [a, b, c, d]"
  by (simp add: coalesce_def)

lemma cycleIndex_of_eq: "cycleIndex_of prim v = cycle_kept prim v"
proof (cases v)
  case None
  then show ?thesis by (simp add: cycleIndex_of_def)
next
  case (Some j)
  then show ?thesis
    by (cases j) (auto simp: cycleIndex_of_def split: option.splits number.splits)
qed

lemma startsWith_nonempty: "startsWith s ''{'' \<Longrightarrow> s \<noteq> []"
  by (auto simp: startsWith_def)

lemma decode_members:
  "(case P of
      None \<Rightarrow> None
    | Some pressure \<Rightarrow>
       (case T of
          None \<Rightarrow> None
        | Some temp \<Rightarrow>
           (if isFinite pressure \<and> isFinite temp then
              (case C of
                 None \<Rightarrow> None
               | Some ci \<Rightarrow>
                  Some \<lparr>timestamp = ts, measuredPressure = pressure, temperature = temp,
                        cycleIndex = ci\<rparr>)
            else None)))
   = (case (P, T, C) of
        (Some (Fin p), Some (Fin t), Some ci) \<Rightarrow>
          Some \<lparr>timestamp = ts, measuredPressure = Fin p, temperature = Fin t, cycleIndex = ci\<rparr>
      | _ \<Rightarrow> None)"
proof (cases P)
  case None
  then show ?thesis by simp
next
  case P: (Some pressure)
  show ?thesis
  proof (cases T)
    case None
    with P show ?thesis by (cases pressure) simp_all
  next
    case T: (Some temp)
    show ?thesis
    proof (cases C)
      case None
      with P T show ?thesis by (cases pressure; cases temp) simp_all
    next
      case (Some ci)
      with P T show ?thesis by (cases pressure; cases temp) simp_all
    qed
  qed
qed

lemma trim_line_B: "trim line_B = line_B"
  by (simp add: trim_def is_js_space_def line_B_def)

lemma trim_line_C: "trim line_C = line_C"
  by (simp add: trim_def is_js_space_def line_C_def)

lemma sample_JSON_parse_B:
  "sample_JSON_parse line_B = Some [(''pressure'', JNull), (''p'', JNum (Fin 5)), (''t'', JNull)]"
  by (simp add: sample_JSON_parse_def line_A_def line_B_def)

lemma sample_JSON_parse_C:
  "sample_JSON_parse line_C =
     Some [(''p'', JNum (Fin 1)), (''t'', JNum (Fin 2)),
           (''cycle'', JObj [(''toString'', JNum (Fin 1)), (''valueOf'', JNum (Fin 2))])]"
  by (simp add: sample_JSON_parse_def line_A_def line_B_def line_C_def)

lemma braces_line_B: "startsWith line_B ''{''" "endsWith line_B ''}''" "line_B \<noteq> []"
  by (simp_all add: startsWith_def endsWith_def line_B_def)

lemma braces_line_C: "startsWith line_C ''{''" "endsWith line_C ''}''" "line_C \<noteq> []"
  by (simp_all add: startsWith_def endsWith_def line_C_def)

lemma parse_line_B: "parseLine sample_JSON_parse sample_prim ''T'' line_B = Some row_B"
  unfolding parseLine_def trim_line_B
  by (simp add: braces_line_B sample_JSON_parse_B coalesce_def cycleIndex_of_def row_B_def)

text \<open>
  C6, as stated, at the line \<^verbatim>\<open>{"pressure":null,"p":5,"t":null}\<close>: \<^verbatim>\<open>parseLine\<close> returns the row
  with pressure 5 and temperature 0. Taking the first alias that is a key of the object
  gives pressure 0; taking the first alias that is not \<^verbatim>\<open>null\<close> finds no temperature and
  gives nothing.
\<close>

theorem C6_null_field_counterexample:
  "parseLine sample_JSON_parse sample_prim ''T'' line_B
     \<noteq> parse_by_rule first_present cycle_dropped sample_JSON_parse sample_prim ''T'' line_B
   \<and> parseLine sample_JSON_parse sample_prim ''T'' line_B
     \<noteq> parse_by_rule first_non_null cycle_dropped sample_JSON_parse sample_prim ''T'' line_B"
  unfolding parse_line_B parse_by_rule_def trim_line_B
  by (simp add: braces_line_B sample_JSON_parse_B row_B_def cycle_dropped_def)

text \<open>
  The second difference: at a line whose \<^verbatim>\<open>cycle\<close> is an object that cannot be converted to a
  primitive, \<^verbatim>\<open>Number(cycle)\<close> throws inside the \<^verbatim>\<open>try\<close> block and the line is rejected, not
  decoded with the cycle dropped.
\<close>

lemma parseLine_cycle_conversion_throws:
  "parseLine sample_JSON_parse sample_prim ''T'' line_C = None
   \<and> parse_by_rule first_present cycle_dropped sample_JSON_parse sample_prim ''T'' line_C
     = Some \<lparr>timestamp = ''T'', measuredPressure = Fin 1, temperature = Fin 2, cycleIndex = None\<rparr>"
  unfolding parseLine_def parse_by_rule_def trim_line_C
  by (simp add: braces_line_C sample_JSON_parse_C coalesce_def cycleIndex_of_def
      cycle_dropped_def sample_prim_def)

text \<open>
  C6, amended: on every input \<^verbatim>\<open>parseLine\<close> is the decoder of the specification with the
  two amended rules. It returns a row exactly when the trimmed line starts with an opening
  and ends with a closing brace, \<^verbatim>\<open>JSON.parse\<close> accepts it, the pressure and the temperature
  (each the first alias that is neither absent nor \<^verbatim>\<open>null\<close>, or the last alias when there
  is none) coerce to finite numbers, and the coercion of the cycle does not throw; the
  row carries these values; every other input gives nothing. As a function into
  \<open>RealtimeRow option\<close> whose every exception is a \<open>None\<close> of its parameters, it raises none.
\<close>

theorem C6_parseLine_by_amended_rules:
  "parseLine JSON_parse prim ts line
     = parse_by_rule first_value cycle_kept JSON_parse prim ts line"
proof (cases "startsWith (trim line) ''{'' \<and> endsWith (trim line) ''}''")
  case False
  then show ?thesis
    by (auto simp: parseLine_def parse_by_rule_def Let_def)
next
  case True
  then have ne: "trim line \<noteq> []"
    by (simp add: startsWith_nonempty)
  show ?thesis
  proof (cases "JSON_parse (trim line)")
    case None
    with True ne show ?thesis
      by (simp add: parseLine_def parse_by_rule_def Let_def)
  next
    case (Some members)
    have code: "parseLine JSON_parse prim ts line =
      (case Number_js prim
              (first_value (map_of members) [''pressure'', ''measuredPressure'', ''p'', ''pr'']) of
         None \<Rightarrow> None
       | Some pressure \<Rightarrow>
          (case Number_js prim (first_value (map_of members) [''temperature'', ''temp'', ''t'']) of
             None \<Rightarrow> None
           | Some temp \<Rightarrow>
              (if isFinite pressure \<and> isFinite temp then
                 (case cycle_kept prim (first_value (map_of members) [''cycle'', ''cycleIndex'']) of
                    None \<Rightarrow> None
                  | Some ci \<Rightarrow>
                     Some \<lparr>timestamp = ts, measuredPressure = pressure, temperature = temp,
                           cycleIndex = ci\<rparr>)
               else None)))"
      using True ne Some
      by (simp only: parseLine_def Let_def coalesce_chain4 coalesce_chain3 coalesce_chain2
          cycleIndex_of_eq if_False if_True option.case simp_thms)
    have spec: "parse_by_rule first_value cycle_kept JSON_parse prim ts line =
      (case (Number_js prim
               (first_value (map_of members) [''pressure'', ''measuredPressure'', ''p'', ''pr'']),
             Number_js prim (first_value (map_of members) [''temperature'', ''temp'', ''t'']),
             cycle_kept prim (first_value (map_of members) [''cycle'', ''cycleIndex''])) of
         (Some (Fin p), Some (Fin t), Some ci) \<Rightarrow>
           Some \<lparr>timestamp = ts, measuredPressure = Fin p, temperature = Fin t, cycleIndex = ci\<rparr>
       | _ \<Rightarrow> None)"
      using True Some
      by (simp only: parse_by_rule_def Let_def if_True option.case simp_thms)
    show ?thesis
      unfolding code spec by (rule decode_members)
  qed
qed

end
